theory Spec2Isabelle
  imports Main "HOL-Library.AList"
begin

section \<open>JavaScript values and errors\<close>

text \<open>
  \<^verbatim>\<open>GeneralObject\<close> is the generic object tree that the markup-to-object converter
  returns. Objects are association lists in insertion order; \<open>JUndefined\<close> and
  \<open>JNull\<close> are the two nullish values. Text and attribute values are strings.
\<close>

datatype json =
    JUndefined
  | JNull
  | JString string
  | JArray "json list"
  | JObject "(string \<times> json) list"

text \<open>
  Every \<^verbatim>\<open>throw\<close> of the source is a value. \<open>TypeError\<close> is the runtime error of
  reading a property of a nullish value or calling something that is not a function;
  \<open>NotFound p\<close> is \<^verbatim>\<open>new Error(`${p} not found!`)\<close>; \<open>Thrown s\<close> is whatever a
  collaborator (the markup converter, the URI decoder, the link parser, the section
  builder, the archive reader) throws.
\<close>

datatype error = TypeError | NotFound string | Thrown string

definition ebind :: "error + 'a \<Rightarrow> ('a \<Rightarrow> error + 'b) \<Rightarrow> error + 'b" where
  "ebind m f = (case m of Inl e \<Rightarrow> Inl e | Inr a \<Rightarrow> f a)"

text \<open>
  \<^verbatim>\<open>xs.map(f)\<close> and \<^verbatim>\<open>xs.find(f)\<close> with a callback that can throw: the elements are
  visited in order and the first error ends the call.
\<close>

fun findM :: "('a \<Rightarrow> error + bool) \<Rightarrow> 'a list \<Rightarrow> error + 'a option" where
  "findM f [] = Inr None"
| "findM f (x # xs) =
     (case f x of
        Inl e \<Rightarrow> Inl e
      | Inr b \<Rightarrow> if b then Inr (Some x) else findM f xs)"

fun mapM :: "('a \<Rightarrow> error + 'b) \<Rightarrow> 'a list \<Rightarrow> error + 'b list" where
  "mapM f [] = Inr []"
| "mapM f (x # xs) =
     (case f x of
        Inl e \<Rightarrow> Inl e
      | Inr y \<Rightarrow> (case mapM f xs of Inl e \<Rightarrow> Inl e | Inr ys \<Rightarrow> Inr (y # ys)))"

fun nullish :: "json \<Rightarrow> bool" where
  "nullish JUndefined = True"
| "nullish JNull = True"
| "nullish _ = False"

text \<open>\<^verbatim>\<open>if (v)\<close>: the falsy values of the tree are the nullish ones and the empty string.\<close>

fun truthy :: "json \<Rightarrow> bool" where
  "truthy JUndefined = False"
| "truthy JNull = False"
| "truthy (JString s) = (s \<noteq> [])"
| "truthy _ = True"

text \<open>
  \<^verbatim>\<open>v[key]\<close> on a value that is not nullish. The keys the source reads are
  element and attribute names, never \<^verbatim>\<open>length\<close> or a method name, so a string or an
  array has none of them.
\<close>

fun member_js :: "json \<Rightarrow> string \<Rightarrow> json" where
  "member_js (JObject kvs) k = (case map_of kvs k of None \<Rightarrow> JUndefined | Some v \<Rightarrow> v)"
| "member_js _ k = JUndefined"

definition get_prop :: "json \<Rightarrow> string \<Rightarrow> error + json" where
  "get_prop v k = (if nullish v then Inl TypeError else Inr (member_js v k))"

text \<open>\<^verbatim>\<open>v?.[key]\<close>\<close>

definition opt_prop :: "json \<Rightarrow> string \<Rightarrow> json" where
  "opt_prop v k = (if nullish v then JUndefined else member_js v k)"

text \<open>\<^verbatim>\<open>v[0]\<close> on a value that is not nullish.\<close>

fun first_js :: "json \<Rightarrow> json" where
  "first_js (JArray (x # xs)) = x"
| "first_js (JString (c # cs)) = JString [c]"
| "first_js (JObject kvs) = (case map_of kvs ''0'' of None \<Rightarrow> JUndefined | Some v \<Rightarrow> v)"
| "first_js _ = JUndefined"

definition index0 :: "json \<Rightarrow> error + json" where
  "index0 v = (if nullish v then Inl TypeError else Inr (first_js v))"

definition opt_index0 :: "json \<Rightarrow> json" where
  "opt_index0 v = (if nullish v then JUndefined else first_js v)"

section \<open>The lodash replacements\<close>

text \<open>
  \<^verbatim>\<open>get(obj, path, defaultValue)\<close>: walks the path, returns the default as soon as the
  current value is nullish, and applies \<^verbatim>\<open>??\<close> to the end result.
\<close>

fun get :: "json \<Rightarrow> string list \<Rightarrow> json \<Rightarrow> json" where
  "get result [] dflt = (if nullish result then dflt else result)"
| "get result (key # path) dflt =
     (if nullish result then dflt else get (member_js result key) path dflt)"

section \<open>Manifest\<close>

text \<open>
  An entry of \<^verbatim>\<open>_manifest\<close>. The interface \<^verbatim>\<open>Manifest\<close> declares both fields as
  strings; the entries are built from the package document without a check, so at
  run time a field holds whatever the attribute was, \<^verbatim>\<open>undefined\<close> when it was
  missing.
\<close>

record manifest =
  href :: json
  id_m :: json

text \<open>The callback of \<^verbatim>\<open>getManifest\<close>: \<^verbatim>\<open>{ href: item['@href'], id: item['@id'] }\<close>.\<close>

definition manifest_item :: "json \<Rightarrow> error + manifest" where
  "manifest_item item =
     ebind (get_prop item ''@href'') (\<lambda>h.
     ebind (get_prop item ''@id'') (\<lambda>i.
     Inr \<lparr>href = h, id_m = i\<rparr>))"

text \<open>
  \<^verbatim>\<open>getManifest(content)\<close>: the cached manifest when there is one (an empty array is
  truthy), otherwise \<^verbatim>\<open>get(content, ['package','manifest','item'], []).map(...)\<close>.
  Only an array has \<^verbatim>\<open>map\<close>; on an object or a string the call is a TypeError.
\<close>

definition getManifest :: "manifest list option \<Rightarrow> json \<Rightarrow> error + manifest list" where
  "getManifest cached content =
     (case cached of
        Some ms \<Rightarrow> Inr ms
      | None \<Rightarrow>
          (case get content [''package'', ''manifest'', ''item''] (JArray []) of
             JArray items \<Rightarrow> mapM manifest_item items
           | _ \<Rightarrow> Inl TypeError))"

text \<open>
  \<^verbatim>\<open>String(v)\<close>, as string concatenation, template literals and property keys apply
  it. \<^verbatim>\<open>Array.prototype.join\<close> writes a nullish element as the empty string.
\<close>

fun join_js :: "string \<Rightarrow> string list \<Rightarrow> string" where
  "join_js sep [] = []"
| "join_js sep [x] = x"
| "join_js sep (x # y # ys) = x @ sep @ join_js sep (y # ys)"

fun js_to_string :: "json \<Rightarrow> string" where
  "js_to_string JUndefined = ''undefined''"
| "js_to_string JNull = ''null''"
| "js_to_string (JString s) = s"
| "js_to_string (JArray xs) =
     join_js '','' (map (\<lambda>x. if nullish x then [] else js_to_string x) xs)"
| "js_to_string (JObject kvs) = ''[object Object]''"

section \<open>Metadata\<close>

text \<open>
  \<^verbatim>\<open>pickBy(obj, predicate)\<close> keeps the keys whose value satisfies the predicate, in the
  order of \<^verbatim>\<open>Object.keys\<close>. The six keys of \<^verbatim>\<open>info\<close> are not array indices, so
  that order is the insertion order.
\<close>

definition pickBy :: "(string \<times> json) list \<Rightarrow> (json \<Rightarrow> string \<Rightarrow> bool) \<Rightarrow> (string \<times> json) list" where
  "pickBy obj predicate = filter (\<lambda>(key, v). predicate v key) obj"

text \<open>
  The predicate of \<^verbatim>\<open>parseMetadata\<close>:
  \<^verbatim>\<open>if (Array.isArray(v)) return v.length !== 0 && v[0] !== undefined; return v !== undefined\<close>.
\<close>

fun present :: "json \<Rightarrow> string \<Rightarrow> bool" where
  "present (JArray []) key = False"
| "present (JArray (x # xs)) key = (x \<noteq> JUndefined)"
| "present v key = (v \<noteq> JUndefined)"

text \<open>The branch \<^verbatim>\<open>item === 'author'\<close>.\<close>

definition author_field :: "json \<Rightarrow> error + json" where
  "author_field meta =
     (case get meta [''dc:creator''] (JArray []) of
        JArray as \<Rightarrow> ebind (mapM (\<lambda>a. get_prop a ''#text'') as) (\<lambda>ts. Inr (JArray ts))
      | author \<Rightarrow> Inr (JArray [opt_prop author ''#text'']))"

definition metadata_field :: "json \<Rightarrow> string \<Rightarrow> error + json" where
  "metadata_field meta item =
     (if item = ''author'' then author_field meta
      else if item = ''description'' then Inr (get meta [item, ''_''] JUndefined)
      else Inr (get meta [''dc:'' @ item] JUndefined))"

text \<open>
  \<^verbatim>\<open>parseMetadata(metadata = {})\<close>: the default applies to \<^verbatim>\<open>undefined\<close> only. The
  \<^verbatim>\<open>forEach\<close> assigns one key of \<^verbatim>\<open>info\<close> per field, in this order, also when the
  value is \<^verbatim>\<open>undefined\<close>.
\<close>

definition parseMetadata :: "json \<Rightarrow> error + (string \<times> json) list" where
  "parseMetadata metadata =
     (let meta = (if metadata = JUndefined then JObject [] else metadata) in
      ebind (mapM (\<lambda>item. ebind (metadata_field meta item) (\<lambda>v. Inr (item, v)))
               [''title'', ''author'', ''description'', ''language'', ''publisher'', ''rights''])
        (\<lambda>info. Inr (pickBy info present)))"

section \<open>The document and its collaborators\<close>

text \<open>The part of the result of \<^verbatim>\<open>parseLink\<close> that this file reads.\<close>

record parsed_link =
  link_name :: string
  link_hash :: "string option"

datatype play_order = PlayNum nat | PlayRaw json

datatype TOCItem =
  TOCItem (name: json) (sectionId: json) (nodeId: json) (path: json)
    (playOrder: play_order) (children: "json + TOCItem list")

text \<open>\<^verbatim>\<open>ParserOptions\<close> after the merge with \<^verbatim>\<open>defaultOptions\<close>.\<close>

record 'conv parser_options =
  type_o :: string
  expand :: bool
  convertToMarkdown :: "'conv option"

text \<open>The argument of \<^verbatim>\<open>parseSection\<close>.\<close>

record section_args =
  id_s :: string
  htmlString :: string
  resourceResolver :: "json \<Rightarrow> error + string"
  idResolver :: "json \<Rightarrow> error + json"
  expand_s :: bool

text \<open>What \<^verbatim>\<open>new AdmZip(input)\<close> is given: a file path or a buffer.\<close>

datatype zip_source = Path string | Bytes string

text \<open>
  Code that is not part of \<^verbatim>\<open>parseEpub.ts\<close> is a parameter: the built-in \<^verbatim>\<open>decodeURI\<close>,
  and the imports \<^verbatim>\<open>xmlToJson\<close>, \<^verbatim>\<open>determineRoot\<close>, \<^verbatim>\<open>parseLink\<close>,
  \<^verbatim>\<open>parseSection\<close> and the \<^verbatim>\<open>register\<close> method of the section it returns,
  \<^verbatim>\<open>fs.existsSync\<close> and the constructor of \<^verbatim>\<open>AdmZip\<close>. \<^verbatim>\<open>determineRoot\<close> and
  \<^verbatim>\<open>parseLink\<close> are called with values that no check has made strings, so they
  take any value and may throw.
\<close>

record ('sec, 'conv) env =
  decodeURI :: "string \<Rightarrow> error + string"
  xmlToJson :: "string \<Rightarrow> error + json"
  determineRoot :: "json \<Rightarrow> error + string"
  parseLink :: "json \<Rightarrow> error + parsed_link"
  parseSection :: "section_args \<Rightarrow> error + 'sec"
  register :: "'conv \<Rightarrow> 'sec \<Rightarrow> 'sec"
  existsSync :: "string \<Rightarrow> bool"
  admZip :: "zip_source \<Rightarrow> error + (string \<Rightarrow> string option)"

text \<open>
  The fields of \<^verbatim>\<open>class Epub\<close>. The archive is the function from an entry name to its
  text (\<^verbatim>\<open>getEntry(name)\<close>, then \<^verbatim>\<open>getData().toString('utf8')\<close>). An object used as a
  dictionary (\<^verbatim>\<open>_spine\<close>) is the list of its own properties in insertion order.
\<close>

record ('sec, 'conv) epub =
  zip_e :: "string \<Rightarrow> string option"
  opfPath :: json
  root :: "string option"
  content :: json
  manifest :: "manifest list option"
  spine :: "(string \<times> nat) list option"
  toc :: json
  metadata :: json
  options :: "'conv parser_options"
  structure_e :: "TOCItem list option"
  info :: "(string \<times> json) list option"
  sections :: "'sec list option"
  tocFile :: json

section \<open>Archive accessor\<close>

text \<open>
  \<^verbatim>\<open>resolve(path)\<close>, followed by \<^verbatim>\<open>asText()\<close>. The parameter is declared a string;
  \<^verbatim>\<open>_resolveSections\<close> and \<^verbatim>\<open>parse\<close> pass it the href of a manifest entry as it is.
  \<^verbatim>\<open>path[0]\<close> throws on a nullish path; only a string has \<^verbatim>\<open>substring\<close>;
  \<^verbatim>\<open>this._root + path\<close> writes the path with \<^verbatim>\<open>String\<close> and an unset root as
  \<^verbatim>\<open>undefined\<close>. The error carries \<^verbatim>\<open>_path\<close>, the path before decoding.
\<close>

definition resolved_path :: "string option \<Rightarrow> json \<Rightarrow> error + string" where
  "resolved_path rt p =
     (if nullish p then Inl TypeError
      else if first_js p = JString ''/'' then
        (case p of JString s \<Rightarrow> Inr (tl s) | _ \<Rightarrow> Inl TypeError)
      else Inr ((case rt of None \<Rightarrow> ''undefined'' | Some r \<Rightarrow> r) @ js_to_string p))"

definition resolve :: "('sec, 'conv) env \<Rightarrow> ('sec, 'conv) epub \<Rightarrow> json \<Rightarrow> error + string" where
  "resolve ev e p =
     ebind (resolved_path (root e) p) (\<lambda>p'.
     ebind (decodeURI ev p') (\<lambda>decodedPath.
       case zip_e e decodedPath of
         Some entry \<Rightarrow> Inr entry
       | None \<Rightarrow> Inl (NotFound p')))"

definition resolveXMLAsJsObject :: "('sec, 'conv) env \<Rightarrow> ('sec, 'conv) epub \<Rightarrow> json \<Rightarrow> error + json" where
  "resolveXMLAsJsObject ev e p = ebind (resolve ev e p) (xmlToJson ev)"

text \<open>
  \<^verbatim>\<open>_getOpfPath()\<close>: the bootstrap descriptor, then
  \<^verbatim>\<open>.container.rootfiles.rootfile['@full-path']\<close>.
\<close>

definition full_path :: "json \<Rightarrow> error + json" where
  "full_path j =
     ebind (get_prop j ''container'') (\<lambda>c.
     ebind (get_prop c ''rootfiles'') (\<lambda>rs.
     ebind (get_prop rs ''rootfile'') (\<lambda>rf.
     get_prop rf ''@full-path'')))"

definition getOpfPath :: "('sec, 'conv) env \<Rightarrow> ('sec, 'conv) epub \<Rightarrow> error + json" where
  "getOpfPath ev e =
     ebind (resolveXMLAsJsObject ev e (JString ''/META-INF/container.xml'')) full_path"

section \<open>Link resolver\<close>

text \<open>
  \<^verbatim>\<open>_resolveIdFromLink(href)\<close>: \<^verbatim>\<open>parseLink(href)\<close> first, then
  \<^verbatim>\<open>this._manifest?.find(...)\<close>, which is \<^verbatim>\<open>undefined\<close> over an unset manifest and
  calls \<^verbatim>\<open>parseLink(item.href)\<close> on each entry until the names are equal;
  \<^verbatim>\<open>tarItem?.id ?? ''\<close> is the empty string when there is no entry or its id is
  nullish.
\<close>

definition resolveIdFromLink ::
    "(json \<Rightarrow> error + parsed_link) \<Rightarrow> manifest list option \<Rightarrow> json \<Rightarrow> error + json" where
  "resolveIdFromLink pl mf h =
     ebind (pl h) (\<lambda>tar.
     ebind (case mf of
              None \<Rightarrow> Inr None
            | Some ms \<Rightarrow>
                findM (\<lambda>item. ebind (pl (href item)) (\<lambda>l. Inr (link_name l = link_name tar))) ms)
       (\<lambda>tarItem.
          Inr (case tarItem of
                 None \<Rightarrow> JString []
               | Some item \<Rightarrow> if nullish (id_m item) then JString [] else id_m item)))"

definition getItemId ::
    "(json \<Rightarrow> error + parsed_link) \<Rightarrow> manifest list option \<Rightarrow> json \<Rightarrow> error + json" where
  "getItemId pl mf h = resolveIdFromLink pl mf h"

section \<open>TOC builder, nested-list navigation markup\<close>

text \<open>\<^verbatim>\<open>navPoint.a[0] || {}\<close>\<close>

definition link_element :: "json \<Rightarrow> error + json" where
  "link_element navPoint =
     ebind (get_prop navPoint ''a'') (\<lambda>a.
     ebind (index0 a) (\<lambda>a0.
     Inr (if truthy a0 then a0 else JObject [])))"

text \<open>
  \<^verbatim>\<open>let name = element['_']; const prefix = element.span;
  if (prefix) name = `${prefix.map((p) => p['_']).join('')}${name}`\<close>
\<close>

definition display_name :: "json \<Rightarrow> error + json" where
  "display_name element =
     (let name0 = member_js element ''_''; prefix = member_js element ''span'' in
      if truthy prefix then
        (case prefix of
           JArray ps \<Rightarrow>
             ebind (mapM (\<lambda>p. get_prop p ''_'') ps) (\<lambda>ts.
               Inr (JString (join_js [] (map (\<lambda>t. if nullish t then [] else js_to_string t) ts)
                              @ js_to_string name0)))
         | _ \<Rightarrow> Inl TypeError)
      else Inr name0)"

text \<open>\<^verbatim>\<open>navPoint?.ol?.[0]?.li\<close>\<close>

definition children_li :: "json \<Rightarrow> json" where
  "children_li navPoint = opt_prop (opt_index0 (opt_prop navPoint ''ol'')) ''li''"

text \<open>
  The two closures of \<^verbatim>\<open>_genStructureForHTML\<close>. The captured variable
  \<^verbatim>\<open>runningIndex\<close> is threaded through: each function takes its current value and
  returns the new one. \<^verbatim>\<open>parseOuterHTML\<close> is the \<^verbatim>\<open>map\<close> over the elements of the
  collection; a collection that is not an array has no \<^verbatim>\<open>map\<close> (TypeError at the
  call).
\<close>

function parseHTMLNavPoints ::
    "(json \<Rightarrow> error + parsed_link) \<Rightarrow> manifest list option \<Rightarrow> json \<Rightarrow> nat \<Rightarrow> error + (TOCItem \<times> nat)"
  and parseOuterHTML ::
    "(json \<Rightarrow> error + parsed_link) \<Rightarrow> manifest list option \<Rightarrow> json list \<Rightarrow> nat \<Rightarrow> error + (TOCItem list \<times> nat)"
where
  "parseHTMLNavPoints pl mf navPoint runningIndex =
     ebind (link_element navPoint) (\<lambda>element.
     ebind (get_prop element ''$'') (\<lambda>attrs.
     ebind (get_prop attrs ''href'') (\<lambda>path1.
     ebind (display_name element) (\<lambda>name1.
     ebind (resolveIdFromLink pl mf path1) (\<lambda>sectionId1.
     ebind (pl path1) (\<lambda>link.
       let nodeId1 = (case link_hash link of None \<Rightarrow> JUndefined | Some h \<Rightarrow> JString h);
           playOrder1 = runningIndex;
           children0 = children_li navPoint
       in ebind (if truthy children0 then
                   (case children0 of
                      JArray points \<Rightarrow>
                        ebind (parseOuterHTML pl mf points runningIndex)
                          (\<lambda>(items, r). Inr (Inr items, r))
                    | _ \<Rightarrow> Inl TypeError)
                 else Inr (Inl children0, runningIndex))
            (\<lambda>(children1, r).
               Inr (TOCItem name1 sectionId1 nodeId1 path1 (PlayNum playOrder1) children1,
                    Suc r))))))))"
| "parseOuterHTML pl mf [] runningIndex = Inr ([], runningIndex)"
| "parseOuterHTML pl mf (point # points) runningIndex =
     ebind (parseHTMLNavPoints pl mf point runningIndex) (\<lambda>(item, r).
     ebind (parseOuterHTML pl mf points r) (\<lambda>(items, r'). Inr (item # items, r')))"
  by pat_completeness auto
termination
proof -
  have entry: "size v < Suc (size_list (size_prod (\<lambda>x. 0) size) kvs)"
    if "map_of kvs k = Some v" for kvs :: "(string \<times> json) list" and k v
    using that by (induction kvs) (auto split: if_splits)
  have member_le: "size (member_js v k) \<le> size v" for v k
    by (cases v) (auto split: option.splits dest: entry)
  have first_le: "size (first_js v) \<le> size v" for v
    by (induction v rule: first_js.induct) (auto split: option.splits dest: entry)
  have member_arr: "size_list size xs < size v" if "member_js v k = JArray xs" for v k xs
    using that by (cases v) (auto split: option.splits dest: entry)
  have li: "size_list size xs < size np" if "JArray xs = children_li np" for np xs
    using that [symmetric] member_le [of np "''ol''"] first_le [of "member_js np ''ol''"]
    unfolding children_li_def opt_prop_def opt_index0_def
    by (auto split: if_splits dest!: member_arr)
  show ?thesis
    by (relation "measure (\<lambda>x. case x of Inl (pl, mf, np, n) \<Rightarrow> size np
                                       | Inr (pl, mf, xs, n) \<Rightarrow> size_list size xs)")
       (auto dest: li)
qed

text \<open>
  \<^verbatim>\<open>_genStructureForHTML(tocObj)\<close>:
  \<^verbatim>\<open>tocRoot = tocObj.html.body[0].nav[0]['ol'][0].li\<close>, \<^verbatim>\<open>runningIndex = 1\<close>,
  \<^verbatim>\<open>return parseOuterHTML(tocRoot)\<close>.
\<close>

definition toc_root :: "json \<Rightarrow> error + json" where
  "toc_root tocObj =
     ebind (get_prop tocObj ''html'') (\<lambda>h.
     ebind (get_prop h ''body'') (\<lambda>b.
     ebind (index0 b) (\<lambda>b0.
     ebind (get_prop b0 ''nav'') (\<lambda>n.
     ebind (index0 n) (\<lambda>n0.
     ebind (get_prop n0 ''ol'') (\<lambda>ol.
     ebind (index0 ol) (\<lambda>ol0.
     get_prop ol0 ''li'')))))))"

definition genStructureForHTML ::
    "(json \<Rightarrow> error + parsed_link) \<Rightarrow> manifest list option \<Rightarrow> json \<Rightarrow> error + TOCItem list" where
  "genStructureForHTML pl mf tocObj =
     ebind (toc_root tocObj) (\<lambda>tocRoot.
       case tocRoot of
         JArray points \<Rightarrow> ebind (parseOuterHTML pl mf points 1) (\<lambda>(items, r). Inr items)
       | _ \<Rightarrow> Inl TypeError)"

section \<open>TOC builder, navigation points\<close>

text \<open>
  The closures \<^verbatim>\<open>parseNavPoint\<close> and \<^verbatim>\<open>parseNavPoints\<close> of \<^verbatim>\<open>_genStructure\<close>.
  \<^verbatim>\<open>parseLink(path)\<close> comes first; \<^verbatim>\<open>navPoint.navPoint\<close> is the first read that
  throws on a nullish point (\<^verbatim>\<open>get\<close> does not); the link of the point is resolved
  after its children are built. \<open>map_navPoints\<close> is the \<^verbatim>\<open>map\<close> of
  \<^verbatim>\<open>parseNavPoints\<close> over \<^verbatim>\<open>Array.isArray(navPoints) ? navPoints : [navPoints]\<close>.
\<close>

text \<open>\<^verbatim>\<open>Array.isArray(v)\<close>, and the elements of \<^verbatim>\<open>Array.isArray(v) ? v : [v]\<close>.\<close>

fun is_array :: "json \<Rightarrow> bool" where
  "is_array (JArray xs) = True"
| "is_array _ = False"

definition as_array :: "json \<Rightarrow> json list" where
  "as_array v = (case v of JArray xs \<Rightarrow> xs | _ \<Rightarrow> [v])"

function parseNavPoint ::
    "(json \<Rightarrow> error + parsed_link) \<Rightarrow> manifest list option \<Rightarrow> json \<Rightarrow> error + TOCItem"
  and map_navPoints ::
    "(json \<Rightarrow> error + parsed_link) \<Rightarrow> manifest list option \<Rightarrow> json list \<Rightarrow> error + TOCItem list"
where
  "parseNavPoint pl mf navPoint =
     (let path1 = get navPoint [''content'', ''@src''] (JString []);
          name1 = get navPoint [''navLabel'', ''text''] JUndefined;
          playOrder1 = get navPoint [''@playOrder''] JUndefined
      in ebind (pl path1) (\<lambda>link.
           if nullish navPoint then Inl TypeError
           else
             let hash = link_hash link;
                 children0 = member_js navPoint ''navPoint''
             in ebind (if truthy children0 then
                         ebind (map_navPoints pl mf (as_array children0)) (\<lambda>items. Inr (Inr items))
                       else Inr (Inl children0))
                  (\<lambda>children1.
                     ebind (resolveIdFromLink pl mf path1) (\<lambda>sectionId1.
                     let nodeId1 = (case hash of
                                      None \<Rightarrow> member_js navPoint ''@id''
                                    | Some h \<Rightarrow> if h \<noteq> [] then JString h
                                               else member_js navPoint ''@id'')
                     in Inr (TOCItem name1 sectionId1 nodeId1 path1 (PlayRaw playOrder1)
                               children1)))))"
| "map_navPoints pl mf [] = Inr []"
| "map_navPoints pl mf (point # points) =
     ebind (parseNavPoint pl mf point) (\<lambda>item.
     ebind (map_navPoints pl mf points) (\<lambda>items. Inr (item # items)))"
  by pat_completeness auto
termination
proof -
  have entry: "size v < Suc (size_list (size_prod (\<lambda>x. 0) size) kvs)"
    if "map_of kvs k = Some v" for kvs :: "(string \<times> json) list" and k v
    using that by (induction kvs) (auto split: if_splits)
  have child: "size (member_js v k) < size v" if "truthy (member_js v k)" for v k
    using that by (cases v) (auto split: option.splits dest: entry)
  have arr: "size_list size (as_array c) \<le> size c + 1" for c
    by (cases c) (auto simp: as_array_def)
  have "2 * size_list size (as_array (member_js v k)) < 2 * size v + 1"
    if "truthy (member_js v k)" for v k
    using child [OF that] arr [of "member_js v k"] by linarith
  then show ?thesis
    by (relation "measure (\<lambda>x. case x of Inl (pl, mf, np) \<Rightarrow> 2 * size np + 1
                                       | Inr (pl, mf, xs) \<Rightarrow> 2 * size_list size xs)")
       auto
qed

text \<open>
  \<^verbatim>\<open>_genStructure(tocObj)\<close>; the second parameter \<^verbatim>\<open>resolveNodeId\<close> is never read.
\<close>

definition genStructure ::
    "(json \<Rightarrow> error + parsed_link) \<Rightarrow> manifest list option \<Rightarrow> json \<Rightarrow> error + TOCItem list" where
  "genStructure pl mf tocObj =
     ebind (get_prop tocObj ''html'') (\<lambda>h.
       if truthy h then genStructureForHTML pl mf tocObj
       else
         let rootNavPoints = get tocObj [''ncx'', ''navMap'', ''navPoint''] (JArray [])
         in map_navPoints pl mf (as_array rootNavPoints))"

section \<open>Spine\<close>

text \<open>
  A plain object used as a dictionary. An array index is the canonical decimal
  writing of an integer below \<open>2^32 - 1\<close>; \<^verbatim>\<open>Object.keys\<close> lists the array-index keys
  first, in ascending numeric order, then the other keys in insertion order.
  Assigning a number to \<^verbatim>\<open>__proto__\<close> changes nothing, and a read finds the
  properties of \<^verbatim>\<open>Object.prototype\<close> when the object has none of its own.
\<close>

definition is_digit :: "char \<Rightarrow> bool" where
  "is_digit c = (c \<in> set ''0123456789'')"

definition index_value :: "string \<Rightarrow> nat" where
  "index_value s = foldl (\<lambda>n c. 10 * n + (of_char c - 48)) 0 s"

definition is_array_index :: "string \<Rightarrow> bool" where
  "is_array_index s =
     (s \<noteq> [] \<and> list_all is_digit s \<and> (if hd s = CHR ''0'' then s = ''0'' else True)
      \<and> index_value s < 4294967295)"

definition object_keys :: "(string \<times> 'a) list \<Rightarrow> string list" where
  "object_keys obj =
     sort_key index_value (filter is_array_index (map fst obj))
     @ filter (\<lambda>k. \<not> is_array_index k) (map fst obj)"

definition object_set :: "(string \<times> nat) list \<Rightarrow> string \<Rightarrow> nat \<Rightarrow> (string \<times> nat) list" where
  "object_set obj key v = (if key = ''__proto__'' then obj else AList.update key v obj)"

definition object_prototype_names :: "string list" where
  "object_prototype_names =
     [''constructor'', ''__defineGetter__'', ''__defineSetter__'', ''hasOwnProperty'',
      ''__lookupGetter__'', ''__lookupSetter__'', ''isPrototypeOf'', ''propertyIsEnumerable'',
      ''toString'', ''valueOf'', ''__proto__'', ''toLocaleString'']"

text \<open>
  What \<^verbatim>\<open>sectionIndex\<close> holds in \<^verbatim>\<open>getSection\<close>: a number, an inherited property
  (a function or an object), or \<^verbatim>\<open>undefined\<close>.
\<close>

datatype section_index = IndexNum int | IndexInherited | IndexUndefined

definition object_get :: "(string \<times> nat) list \<Rightarrow> string \<Rightarrow> section_index" where
  "object_get obj key =
     (case map_of obj key of
        Some i \<Rightarrow> IndexNum (int i)
      | None \<Rightarrow> if key \<in> set object_prototype_names then IndexInherited else IndexUndefined)"

text \<open>\<^verbatim>\<open>[...new Set(xs)]\<close>: the elements in the order of their first occurrence.\<close>

definition spread_set :: "'a list \<Rightarrow> 'a list" where
  "spread_set xs = foldl (\<lambda>acc x. if x \<in> set acc then acc else acc @ [x]) [] xs"

text \<open>The callback of \<^verbatim>\<open>getSpine\<close>, \<^verbatim>\<open>spine[item['@idref']] = i\<close>, over the item references.\<close>

fun spine_entries :: "json list \<Rightarrow> nat \<Rightarrow> (string \<times> nat) list \<Rightarrow> error + (string \<times> nat) list" where
  "spine_entries [] i sp = Inr sp"
| "spine_entries (item # items) i sp =
     ebind (get_prop item ''@idref'') (\<lambda>idref.
       spine_entries items (Suc i) (object_set sp (js_to_string idref) i))"

text \<open>
  \<^verbatim>\<open>getSpine()\<close>. The call \<^verbatim>\<open>this.getManifest()\<close> has no argument and its result is
  dropped.
\<close>

definition getSpine :: "('sec, 'conv) epub \<Rightarrow> error + (string \<times> nat) list" where
  "getSpine e =
     ebind (getManifest (manifest e) JUndefined) (\<lambda>ignored.
       let itemRefs0 = get (content e) [''package'', ''spine'', ''itemref''] (JArray []);
           itemRefs = (if is_array itemRefs0 then itemRefs0 else JArray [itemRefs0])
       in spine_entries (as_array itemRefs) 0 [])"

text \<open>
  The keys that \<^verbatim>\<open>getSpine\<close> writes for a package document, in the order of its
  item references.
\<close>

definition spine_idrefs :: "json \<Rightarrow> string list" where
  "spine_idrefs c =
     map (\<lambda>item. js_to_string (member_js item ''@idref''))
       (as_array (get c [''package'', ''spine'', ''itemref''] (JArray [])))"

section \<open>Section resolver\<close>

text \<open>The callback of \<^verbatim>\<open>list.map\<close> in \<^verbatim>\<open>_resolveSections\<close>: one manifest id to its section.\<close>

definition resolveSection :: "('sec, 'conv) env \<Rightarrow> ('sec, 'conv) epub \<Rightarrow> string \<Rightarrow> error + 'sec" where
  "resolveSection ev e i =
     (case (case manifest e of None \<Rightarrow> None | Some ms \<Rightarrow> find (\<lambda>m. id_m m = JString i) ms) of
        None \<Rightarrow> Inl TypeError
      | Some item \<Rightarrow>
          ebind (resolve ev e (href item)) (\<lambda>html.
          ebind (parseSection ev
                   \<lparr>id_s = i, htmlString = html, resourceResolver = resolve ev e,
                    idResolver = resolveIdFromLink (parseLink ev) (manifest e),
                    expand_s = expand (options e)\<rparr>) (\<lambda>section.
          Inr (case convertToMarkdown (options e) of
                 Some conv \<Rightarrow> register ev conv section
               | None \<Rightarrow> section))))"

text \<open>
  \<^verbatim>\<open>_resolveSections(id?)\<close>: \<^verbatim>\<open>Object.keys(this._spine!)\<close> throws on an unset spine;
  \<^verbatim>\<open>if (id)\<close> is false for a missing id and for the empty string.
\<close>

definition resolveSections ::
    "('sec, 'conv) env \<Rightarrow> ('sec, 'conv) epub \<Rightarrow> string option \<Rightarrow> error + 'sec list" where
  "resolveSections ev e i =
     (case spine e of
        None \<Rightarrow> Inl TypeError
      | Some sp \<Rightarrow>
          let list0 = spread_set (object_keys sp);
              list1 = (case i of
                         None \<Rightarrow> list0
                       | Some i' \<Rightarrow> if i' \<noteq> [] then [i'] else list0)
          in mapM (resolveSection ev e) list1)"

text \<open>What a call that is declared to return \<^verbatim>\<open>Section | null\<close> returns at run time.\<close>

datatype 'a js_result = Undefined | Null | Value 'a

definition array_at :: "'a list \<Rightarrow> int \<Rightarrow> 'a js_result" where
  "array_at xs n = (if 0 \<le> n \<and> nat n < length xs then Value (xs ! nat n) else Undefined)"

definition getSection :: "('sec, 'conv) env \<Rightarrow> ('sec, 'conv) epub \<Rightarrow> string \<Rightarrow> error + 'sec js_result" where
  "getSection ev e i =
     (let sectionIndex = (case spine e of None \<Rightarrow> IndexNum (- 1) | Some sp \<Rightarrow> object_get sp i) in
      if sectionIndex = IndexUndefined then
        ebind (resolveSections ev e (Some i)) (\<lambda>l. Inr (array_at l 0))
      else
        Inr (case sections e of
               None \<Rightarrow> Null
             | Some secs \<Rightarrow>
                 (case sectionIndex of
                    IndexNum n \<Rightarrow> if n \<noteq> - 1 then array_at secs n else Null
                  | _ \<Rightarrow> Undefined)))"

section \<open>Document facade\<close>

text \<open>
  \<^verbatim>\<open>parse()\<close>: each assignment to a field of \<^verbatim>\<open>this\<close> is a record update, each call
  that can throw is bound, and the first error ends the run (the source has no
  \<^verbatim>\<open>try\<close>): the rejected promise carries the error and no document.
  \<^verbatim>\<open>(this._manifest?.find(m => m.id === 'ncx') || {}).href\<close> is \<^verbatim>\<open>undefined\<close> when no
  entry has that id.
\<close>

definition toc_stage :: "('sec, 'conv) env \<Rightarrow> ('sec, 'conv) epub \<Rightarrow> error + ('sec, 'conv) epub" where
  "toc_stage ev e =
     (if truthy (tocFile e) then
        ebind (resolveXMLAsJsObject ev e (tocFile e)) (\<lambda>t.
        ebind (genStructure (parseLink ev) (manifest e) t) (\<lambda>s.
        Inr (e\<lparr>toc := t, structure_e := Some s\<rparr>)))
      else Inr e)"

definition parse :: "('sec, 'conv) env \<Rightarrow> ('sec, 'conv) epub \<Rightarrow> error + ('sec, 'conv) epub" where
  "parse ev e0 =
     ebind (getOpfPath ev e0) (\<lambda>opf.
     let e1 = e0\<lparr>opfPath := opf\<rparr> in
     ebind (resolveXMLAsJsObject ev e1 (JString (''/'' @ js_to_string opf))) (\<lambda>c.
     let e2 = e1\<lparr>content := c\<rparr> in
     ebind (determineRoot ev opf) (\<lambda>r.
     let e3 = e2\<lparr>root := Some r\<rparr> in
     ebind (getManifest (manifest e3) c) (\<lambda>ms.
     let e4 = e3\<lparr>manifest := Some ms\<rparr>;
         e5 = e4\<lparr>metadata := get c [''package'', ''metadata''] (JObject [])\<rparr>;
         e6 = e5\<lparr>tocFile := (case find (\<lambda>m. id_m m = JString ''ncx'') ms of
                                 None \<Rightarrow> JUndefined
                               | Some m \<Rightarrow> href m)\<rparr>
     in
     ebind (toc_stage ev e6) (\<lambda>e7.
     ebind (getSpine e7) (\<lambda>sp.
     let e8 = e7\<lparr>spine := Some sp\<rparr> in
     ebind (parseMetadata (metadata e8)) (\<lambda>inf.
     let e9 = e8\<lparr>info := Some inf\<rparr> in
     ebind (resolveSections ev e9 None) (\<lambda>ss.
     Inr (e9\<lparr>sections := Some ss\<rparr>)))))))))"


definition defaultOptions :: "'conv parser_options" where
  "defaultOptions = \<lparr>type_o = ''path'', expand = False, convertToMarkdown = None\<rparr>"


definition new_epub :: "(string \<Rightarrow> string option) \<Rightarrow> 'conv parser_options \<Rightarrow> ('sec, 'conv) epub" where
  "new_epub z opts =
     \<lparr>zip_e = z, opfPath = JUndefined, root = None, content = JUndefined, manifest = None,
      spine = None, toc = JUndefined, metadata = JUndefined, options = opts,
      structure_e = None, info = None, sections = None, tocFile = JUndefined\<rparr>"




section \<open>A sample container\<close>

text \<open>
  Modelled from the spec: \<^verbatim>\<open>parseLink\<close> (\<^verbatim>\<open>./parseLink\<close> is imported, its file is
  not among the sources). Section 4.3: the fragment (\<^verbatim>\<open>#...\<close>) is stripped from the
  href and the name is the base name of what is left, without its directory; the
  fragment is the portion of the link after \<^verbatim>\<open>#\<close>.
\<close>

definition parseLink_spec :: "string \<Rightarrow> parsed_link" where
  "parseLink_spec h =
     \<lparr>link_name = rev (takeWhile (\<lambda>c. c \<noteq> CHR ''/'') (rev (takeWhile (\<lambda>c. c \<noteq> CHR ''#'') h))),
      link_hash = (case dropWhile (\<lambda>c. c \<noteq> CHR ''#'') h of [] \<Rightarrow> None | c # cs \<Rightarrow> Some cs)\<rparr>"

text \<open>
  Modelled from the spec: \<^verbatim>\<open>parseLink\<close> as the collaborator that the resolver calls.
  Section 4.3 describes it on hrefs, which are strings: there it is \<open>parseLink_spec\<close>.
  The specification says nothing of a value that is not a string; here the call
  throws on one.
\<close>

definition string_link :: "json \<Rightarrow> error + parsed_link" where
  "string_link v = (case v of JString s \<Rightarrow> Inr (parseLink_spec s) | _ \<Rightarrow> Inl TypeError)"

text \<open>A manifest that inhabits the interface: every id and href is a string.\<close>

definition typed_manifest :: "(string \<times> string) list \<Rightarrow> manifest list" where
  "typed_manifest items = map (\<lambda>(i, h). \<lparr>href = JString h, id_m = JString i\<rparr>) items"

text \<open>
  The scenario of section 8 of the specification: the bootstrap descriptor declares
  the package document at \<^verbatim>\<open>OEBPS/content.opf\<close>, the content root is \<^verbatim>\<open>OEBPS/\<close>.
  A package document is written from its manifest items (id and href) and the
  references of its spine.
\<close>

definition container_doc :: json where
  "container_doc =
     JObject [(''container'', JObject [(''rootfiles'', JObject [(''rootfile'',
       JObject [(''@full-path'', JString ''OEBPS/content.opf'')])])])]"

text \<open>A bootstrap descriptor whose root file names no package document.\<close>

definition bare_container_doc :: json where
  "bare_container_doc =
     JObject [(''container'', JObject [(''rootfiles'', JObject [(''rootfile'', JObject [])])])]"

definition opf_doc :: "(string \<times> string) list \<Rightarrow> string list \<Rightarrow> json" where
  "opf_doc items refs =
     JObject [(''package'', JObject
       [(''metadata'', JObject [(''dc:title'', JString ''A Book''),
                                (''dc:creator'', JObject [(''#text'', JString ''An Author'')])]),
        (''manifest'', JObject [(''item'',
           JArray (map (\<lambda>(i, h). JObject [(''@id'', JString i), (''@href'', JString h)]) items))]),
        (''spine'', JObject [(''itemref'',
           JArray (map (\<lambda>r. JObject [(''@idref'', JString r)]) refs))])])]"

definition nav_point :: "string \<Rightarrow> string \<Rightarrow> string \<Rightarrow> string \<Rightarrow> json" where
  "nav_point i order label src =
     JObject [(''@id'', JString i), (''@playOrder'', JString order),
              (''navLabel'', JObject [(''text'', JString label)]),
              (''content'', JObject [(''@src'', JString src)])]"

definition ncx_doc :: json where
  "ncx_doc =
     JObject [(''ncx'', JObject [(''navMap'', JObject [(''navPoint'',
       JArray [nav_point ''n1'' ''1'' ''One'' ''Text/chap1.xhtml'',
               nav_point ''n2'' ''2'' ''Two'' ''Text/chap2.xhtml#s1'',
               nav_point ''n3'' ''3'' ''Gone'' ''Text/gone.xhtml''])])])]"

definition sample_items :: "(string \<times> string) list" where
  "sample_items =
     [(''chap1'', ''Text/chap1.xhtml''), (''chap2'', ''Text/chap2.xhtml''), (''ncx'', ''toc.ncx'')]"

text \<open>
  The collaborators on this container: the converter knows the texts of the archive,
  paths have no escapes, a section is the pair of its id and its markup.
\<close>

definition sample_xml :: "string \<Rightarrow> error + json" where
  "sample_xml t =
     (if t = ''container'' then Inr container_doc
      else if t = ''container-bare'' then Inr bare_container_doc
      else if t = ''opf'' then Inr (opf_doc sample_items [''chap1'', ''chap2''])
      else if t = ''opf-twice'' then Inr (opf_doc sample_items [''chap1'', ''chap2'', ''chap1''])
      else if t = ''opf-digits'' then
        Inr (opf_doc [(''b'', ''Text/chap1.xhtml''), (''1'', ''Text/chap2.xhtml'')] [''b'', ''1''])
      else if t = ''opf-empty-href'' then
        Inr (opf_doc [(''chap1'', ''Text/chap1.xhtml''), (''ncx'', [])] [''chap1''])
      else if t = ''opf-no-ncx'' then
        Inr (opf_doc [(''chap1'', ''Text/chap1.xhtml''), (''chap2'', ''Text/chap2.xhtml'')]
               [''chap1'', ''chap2''])
      else if t = ''ncx'' then Inr ncx_doc
      else Inl (Thrown ''xml''))"

definition sample_env :: "(string \<times> string, unit) env" where
  "sample_env =
     \<lparr>decodeURI = Inr,
      xmlToJson = sample_xml,
      determineRoot = (\<lambda>p. if p = JString ''OEBPS/content.opf'' then Inr ''OEBPS/''
                            else Inl TypeError),
      parseLink = string_link,
      parseSection = (\<lambda>a. Inr (id_s a, htmlString a)),
      register = (\<lambda>c s. s),
      existsSync = (\<lambda>p. True),
      admZip = (\<lambda>src. Inl (Thrown ''zip''))\<rparr>"

definition sample_archive :: "string \<Rightarrow> string \<Rightarrow> string option" where
  "sample_archive opf =
     map_of [(''META-INF/container.xml'', ''container''),
             (''OEBPS/content.opf'', opf),
             (''OEBPS/toc.ncx'', ''ncx''),
             (''OEBPS/Text/chap1.xhtml'', ''one''),
             (''OEBPS/Text/chap2.xhtml'', ''two'')]"



definition sample_epub :: "string \<Rightarrow> (string \<times> string, unit) epub" where
  "sample_epub opf = new_epub (sample_archive opf) defaultOptions"

text \<open>The document that parsing the sample container gives, for a package document.\<close>

definition parsed :: "string \<Rightarrow> (string \<times> string, unit) epub" where
  "parsed opf = projr (parse sample_env (sample_epub opf))"


text \<open>
  A navigation document in nested-list markup, as the converter returns it: every
  element is an array of its occurrences, \<^verbatim>\<open>$\<close> holds the attributes and \<^verbatim>\<open>_\<close> the
  text. \<open>preorder\<close> lists the order values of an outline, every node before its
  children.
\<close>

definition nav_li :: "string \<Rightarrow> string \<Rightarrow> json list option \<Rightarrow> json" where
  "nav_li h label kids =
     JObject ((''a'', JArray [JObject [(''$'', JObject [(''href'', JString h)]), (''_'', JString label)]])
              # (case kids of None \<Rightarrow> [] | Some ks \<Rightarrow> [(''ol'', JArray [JObject [(''li'', JArray ks)]])]))"

definition nav_doc :: "json list \<Rightarrow> json" where
  "nav_doc lis =
     JObject [(''html'', JObject [(''body'', JArray [JObject [(''nav'',
       JArray [JObject [(''ol'', JArray [JObject [(''li'', JArray lis)]])]])]])])]"


fun preorder :: "TOCItem \<Rightarrow> play_order list" where
  "preorder (TOCItem n s i p po ch) =
     po # (case ch of Inl v \<Rightarrow> [] | Inr cs \<Rightarrow> concat (map preorder cs))"

text \<open>A decoder that knows one escaped path.\<close>

definition percent_decode :: "string \<Rightarrow> error + string" where
  "percent_decode p = (if p = ''OEBPS/Text/a%20b.xhtml'' then Inr ''OEBPS/Text/a b.xhtml'' else Inr p)"


section \<open>Binding results\<close>

lemma ebind_Inr: "ebind m f = Inr y \<longleftrightarrow> (\<exists>a. m = Inr a \<and> f a = Inr y)"
  by (cases m) (simp_all add: ebind_def)

lemma ebind_ret: "ebind (Inr a) f = f a"
  by (simp add: ebind_def)


section \<open>Manifest normalisation\<close>

text \<open>
  C3. The claim: a package document whose manifest holds exactly one item, parsed as a
  single object rather than an array, still gives a one-element manifest. The code
  calls \<^verbatim>\<open>map\<close> on whatever \<^verbatim>\<open>get\<close> returns, so the single object is a TypeError;
  \<^verbatim>\<open>getSpine\<close>, on the same shape of its own list, wraps the object first and
  succeeds, and the array of one item gives the one-element manifest.
\<close>

theorem getManifest_single_item:
  "getManifest None
     (JObject [(''package'', JObject [(''manifest'', JObject [(''item'',
        JObject [(''@id'', JString ''chap1''), (''@href'', JString ''chap1.xhtml'')])])])])
     = Inl TypeError
   \<and> getManifest None
     (JObject [(''package'', JObject [(''manifest'', JObject [(''item'',
        JArray [JObject [(''@id'', JString ''chap1''), (''@href'', JString ''chap1.xhtml'')]])])])])
     = Inr [\<lparr>href = JString ''chap1.xhtml'', id_m = JString ''chap1''\<rparr>]
   \<and> getSpine ((sample_epub ''opf'')
       \<lparr>content := JObject [(''package'', JObject [(''spine'', JObject [(''itemref'',
          JObject [(''@idref'', JString ''chap1'')])])])]\<rparr>)
     = Inr [(''chap1'', 0)]"
  by (simp add: getManifest_def getSpine_def manifest_item_def ebind_def get_prop_def
      sample_epub_def new_epub_def object_set_def as_array_def)

section \<open>Order values of the nested-list outline\<close>

text \<open>
  A node that is built takes the value of the counter at its entry, and so does the
  first node of every list: the first child of a node has the order value of its
  parent.
\<close>

lemma order_of_node:
  "parseHTMLNavPoints pl mf np n = Inr (item, r) \<Longrightarrow> playOrder item = PlayNum n"
  by (subst (asm) parseHTMLNavPoints.simps)
     (auto simp: ebind_Inr Let_def split: if_splits json.splits prod.splits)

lemma order_of_first:
  "parseOuterHTML pl mf ps n = Inr (c # cs, r) \<Longrightarrow> playOrder c = PlayNum n"
  by (cases ps)
     (auto simp: ebind_Inr simp del: parseHTMLNavPoints.simps dest: order_of_node
        split: prod.splits)

lemma children_of_node:
  "parseHTMLNavPoints pl mf np n = Inr (item, r) \<Longrightarrow> children item = Inr items \<Longrightarrow>
   \<exists>ps r'. children_li np = JArray ps \<and> parseOuterHTML pl mf ps n = Inr (items, r')"
  by (subst (asm) parseHTMLNavPoints.simps)
     (auto simp: ebind_Inr Let_def split: if_splits json.splits prod.splits)

lemma first_child_shares_order:
  assumes "parseHTMLNavPoints pl mf np n = Inr (item, r)" and "children item = Inr (c # cs)"
  shows "playOrder c = playOrder item"
proof -
  from assms(1) have "playOrder item = PlayNum n" by (rule order_of_node)
  moreover from children_of_node [OF assms] obtain ps r'
    where "parseOuterHTML pl mf ps n = Inr (c # cs, r')" by blast
  then have "playOrder c = PlayNum n" by (rule order_of_first)
  ultimately show ?thesis by simp
qed

text \<open>
  C1. The claim: the order values of a nested-list outline are strictly increasing
  in pre-order and equal the visitation order. The code reads \<^verbatim>\<open>runningIndex\<close> into
  \<^verbatim>\<open>playOrder\<close> before it descends into the children and increments it only after
  they are built, so a first child starts from the value its parent took. On the outline
  A (with one child B), C the order values in pre-order are 1, 1, 3.
\<close>

theorem playOrder_nested:
  "map_sum (\<lambda>e. e) (\<lambda>items. concat (map preorder items))
     (genStructureForHTML string_link None
        (nav_doc [nav_li ''a.xhtml'' ''A'' (Some [nav_li ''b.xhtml'' ''B'' None]),
                  nav_li ''c.xhtml'' ''C'' None]))
   = Inr [PlayNum 1, PlayNum 1, PlayNum 3]"
  by (simp add: genStructureForHTML_def toc_root_def nav_doc_def nav_li_def link_element_def
      display_name_def children_li_def ebind_def get_prop_def index0_def opt_prop_def
      opt_index0_def resolveIdFromLink_def string_link_def)


section \<open>Links to manifest ids\<close>

lemma takeWhile_stop:
  "\<not> P y \<Longrightarrow> takeWhile P (xs @ y # ys) = takeWhile P xs"
  by (induction xs) auto

lemma link_name_fragment:
  "link_name (parseLink_spec (h @ ''#'' @ frag)) = link_name (parseLink_spec h)"
  by (simp add: parseLink_spec_def takeWhile_stop)

lemma link_name_prefix:
  assumes "CHR ''#'' \<notin> set dir"
  shows "link_name (parseLink_spec (dir @ ''/'' @ h)) = link_name (parseLink_spec h)"
proof -
  have "takeWhile (\<lambda>c. c \<noteq> CHR ''#'') (dir @ ''/'' @ h)
          = dir @ ''/'' @ takeWhile (\<lambda>c. c \<noteq> CHR ''#'') h"
    using assms by (induction dir) auto
  then show ?thesis
    by (simp add: parseLink_spec_def takeWhile_stop)
qed

text \<open>The resolver reads nothing of the link it is given but its name.\<close>

lemma resolveId_cong:
  "pl h = Inr l \<Longrightarrow> pl h' = Inr l' \<Longrightarrow> link_name l = link_name l' \<Longrightarrow>
   resolveIdFromLink pl mf h = resolveIdFromLink pl mf h'"
  by (cases mf) (simp_all add: resolveIdFromLink_def ebind_ret)

lemma string_link_cong:
  "link_name (parseLink_spec h) = link_name (parseLink_spec h') \<Longrightarrow>
   resolveIdFromLink string_link mf (JString h) = resolveIdFromLink string_link mf (JString h')"
  by (rule resolveId_cong [of _ _ "parseLink_spec h" _ "parseLink_spec h'"])
     (simp_all add: string_link_def)

text \<open>The scan of a manifest whose fields are strings never throws.\<close>

lemma findM_typed:
  "findM (\<lambda>item. ebind (string_link (href item)) (\<lambda>l. Inr (link_name l = n))) (typed_manifest items)
   = Inr (map_option (\<lambda>(i, h). \<lparr>href = JString h, id_m = JString i\<rparr>)
            (find (\<lambda>(i, h). link_name (parseLink_spec h) = n) items))"
  by (induction items) (auto simp: typed_manifest_def string_link_def ebind_def)

text \<open>What the scan gives when it does not throw, and where its errors come from.\<close>

lemma findM_none: "(\<forall>x \<in> set xs. f x = Inr False) \<Longrightarrow> findM f xs = Inr None"
  by (induction xs) auto

lemma findM_Inl: "findM f xs = Inl e \<Longrightarrow> \<exists>x \<in> set xs. f x = Inl e"
  by (induction xs) (auto split: sum.splits if_splits)

text \<open>
  C2. With the name of a link as section 4.3 describes it, the resolver gives the same
  id for \<^verbatim>\<open>chap1.xhtml\<close>, \<^verbatim>\<open>/OEBPS/chap1.xhtml\<close> and \<^verbatim>\<open>chap1.xhtml#sec2\<close>, namely the
  id of the first manifest item of that base name; in general the result does not
  change when a fragment is appended to the href or a directory prefix (which holds no
  \<^verbatim>\<open>#\<close>) is put before it.
\<close>

theorem resolveId_invariant:
  "resolveIdFromLink string_link mf (JString ''/OEBPS/chap1.xhtml'')
     = resolveIdFromLink string_link mf (JString ''chap1.xhtml'')
   \<and> resolveIdFromLink string_link mf (JString ''chap1.xhtml#sec2'')
     = resolveIdFromLink string_link mf (JString ''chap1.xhtml'')
   \<and> (\<forall>items i hr. find (\<lambda>(i, h). link_name (parseLink_spec h) = ''chap1.xhtml'') items = Some (i, hr)
         \<longrightarrow> resolveIdFromLink string_link (Some (typed_manifest items)) (JString ''chap1.xhtml'')
               = Inr (JString i))
   \<and> resolveIdFromLink string_link mf (JString (h @ ''#'' @ frag))
     = resolveIdFromLink string_link mf (JString h)
   \<and> (CHR ''#'' \<notin> set dir \<longrightarrow>
        resolveIdFromLink string_link mf (JString (dir @ ''/'' @ h))
          = resolveIdFromLink string_link mf (JString h))"
proof -
  have a: "link_name (parseLink_spec ''/OEBPS/chap1.xhtml'') = link_name (parseLink_spec ''chap1.xhtml'')"
    and b: "link_name (parseLink_spec ''chap1.xhtml#sec2'') = link_name (parseLink_spec ''chap1.xhtml'')"
    and c: "link_name (parseLink_spec ''chap1.xhtml'') = ''chap1.xhtml''"
    by (simp_all add: parseLink_spec_def)
  have c1: "resolveIdFromLink string_link mf (JString ''/OEBPS/chap1.xhtml'')
     = resolveIdFromLink string_link mf (JString ''chap1.xhtml'')"
    using a by (rule string_link_cong)
  have c2: "resolveIdFromLink string_link mf (JString ''chap1.xhtml#sec2'')
     = resolveIdFromLink string_link mf (JString ''chap1.xhtml'')"
    using b by (rule string_link_cong)
  have c3: "resolveIdFromLink string_link (Some (typed_manifest items)) (JString ''chap1.xhtml'')
               = Inr (JString i)"
    if "find (\<lambda>(i, h). link_name (parseLink_spec h) = ''chap1.xhtml'') items = Some (i, hr)"
    for items i hr
  proof -
    have s: "string_link (JString ''chap1.xhtml'') = Inr (parseLink_spec ''chap1.xhtml'')"
      by (simp add: string_link_def)
    show ?thesis
      using that by (simp add: resolveIdFromLink_def s ebind_ret c findM_typed)
  qed
  have c4: "resolveIdFromLink string_link mf (JString (h @ ''#'' @ frag))
     = resolveIdFromLink string_link mf (JString h)"
    using link_name_fragment by (rule string_link_cong)
  have c5: "resolveIdFromLink string_link mf (JString (dir @ ''/'' @ h))
          = resolveIdFromLink string_link mf (JString h)" if "CHR ''#'' \<notin> set dir"
    using link_name_prefix [OF that] by (rule string_link_cong)
  from c1 c2 c3 c4 c5 show ?thesis by blast
qed

text \<open>The manifest of the sample container, asked by bare name, by rooted path and with a fragment.\<close>

theorem resolveId_invariant_witness:
  "CHR ''#'' \<notin> set ''/OEBPS/Text''
   \<and> find (\<lambda>(i, h). link_name (parseLink_spec h) = ''chap1.xhtml'') [(''chap1'', ''Text/chap1.xhtml'')]
       = Some (''chap1'', ''Text/chap1.xhtml'')
   \<and> resolveIdFromLink string_link
        (Some (typed_manifest [(''chap1'', ''Text/chap1.xhtml'')]))
        (JString (''/OEBPS/Text'' @ ''/'' @ ''chap1.xhtml'')) = Inr (JString ''chap1'')
   \<and> resolveIdFromLink string_link
        (Some (typed_manifest [(''chap1'', ''Text/chap1.xhtml'')])) (JString ''chap1.xhtml'')
       = Inr (JString ''chap1'')
   \<and> resolveIdFromLink string_link
        (Some (typed_manifest [(''chap1'', ''Text/chap1.xhtml'')]))
        (JString (''chap1.xhtml'' @ ''#'' @ ''sec2'')) = Inr (JString ''chap1'')"
proof -
  have n: "CHR ''#'' \<notin> set ''/OEBPS/Text''" by simp
  have f: "find (\<lambda>(i, h). link_name (parseLink_spec h) = ''chap1.xhtml'') [(''chap1'', ''Text/chap1.xhtml'')]
       = Some (''chap1'', ''Text/chap1.xhtml'')"
    by (simp add: parseLink_spec_def)
  show ?thesis
    using n f resolveId_invariant [of "Some (typed_manifest [(''chap1'', ''Text/chap1.xhtml'')])"
        "''chap1.xhtml''" "''sec2''" "''/OEBPS/Text''"]
    by simp
qed


text \<open>
  C7. Whatever \<^verbatim>\<open>parseLink\<close> computes as the name of a link: when no manifest item has
  the name of the href, or when there is no manifest yet, the resolver returns the
  empty string. The resolver has no throwing branch of its own: an error of a call
  is an error of \<^verbatim>\<open>parseLink\<close>, on the href or on the href of a manifest item.
\<close>

theorem resolveId_unmatched:
  "resolveIdFromLink pl None h = (case pl h of Inl err \<Rightarrow> Inl err | Inr l \<Rightarrow> Inr (JString []))
   \<and> ((\<forall>item \<in> set ms. \<exists>l'. pl (href item) = Inr l'
                           \<and> (\<forall>l. pl h = Inr l \<longrightarrow> link_name l' \<noteq> link_name l))
        \<longrightarrow> resolveIdFromLink pl (Some ms) h
              = (case pl h of Inl err \<Rightarrow> Inl err | Inr l \<Rightarrow> Inr (JString [])))
   \<and> (resolveIdFromLink pl mf h = Inl e
        \<longrightarrow> pl h = Inl e \<or> (\<exists>ms' item. mf = Some ms' \<and> item \<in> set ms' \<and> pl (href item) = Inl e))"
proof -
  have a: "resolveIdFromLink pl None h = (case pl h of Inl err \<Rightarrow> Inl err | Inr l \<Rightarrow> Inr (JString []))"
    by (simp add: resolveIdFromLink_def ebind_def split: sum.splits)
  have b: "resolveIdFromLink pl (Some ms) h
              = (case pl h of Inl err \<Rightarrow> Inl err | Inr l \<Rightarrow> Inr (JString []))"
    if h: "\<forall>item \<in> set ms. \<exists>l'. pl (href item) = Inr l'
                           \<and> (\<forall>l. pl h = Inr l \<longrightarrow> link_name l' \<noteq> link_name l)"
  proof (cases "pl h")
    case (Inl err)
    then show ?thesis by (simp add: resolveIdFromLink_def ebind_def)
  next
    case (Inr l)
    have "\<forall>item \<in> set ms.
        ebind (pl (href item)) (\<lambda>l'. Inr (link_name l' = link_name l)) = Inr False"
      using h Inr by (auto simp: ebind_def)
    then have "findM (\<lambda>item. ebind (pl (href item)) (\<lambda>l'. Inr (link_name l' = link_name l))) ms
                 = Inr None"
      by (rule findM_none)
    with Inr show ?thesis by (simp add: resolveIdFromLink_def ebind_def)
  qed
  have c: "pl h = Inl e \<or> (\<exists>ms' item. mf = Some ms' \<and> item \<in> set ms' \<and> pl (href item) = Inl e)"
    if "resolveIdFromLink pl mf h = Inl e"
  proof (cases "pl h")
    case (Inl err)
    with that show ?thesis by (simp add: resolveIdFromLink_def ebind_def)
  next
    case (Inr l)
    show ?thesis
    proof (cases mf)
      case None
      with that Inr show ?thesis by (simp add: resolveIdFromLink_def ebind_def)
    next
      case (Some ms')
      with that Inr
      have "findM (\<lambda>item. ebind (pl (href item)) (\<lambda>l'. Inr (link_name l' = link_name l))) ms'
              = Inl e"
        by (auto simp: resolveIdFromLink_def ebind_def split: sum.splits)
      from findM_Inl [OF this] obtain item
        where "item \<in> set ms'" "ebind (pl (href item)) (\<lambda>l'. Inr (link_name l' = link_name l)) = Inl e"
        by blast
      then have "item \<in> set ms' \<and> pl (href item) = Inl e"
        by (auto simp: ebind_def split: sum.splits)
      with Some show ?thesis by blast
    qed
  qed
  from a b c show ?thesis by blast
qed

text \<open>
  A link to a file the manifest does not list; and an error of the link parser, here
  on a manifest item without href, as the only way to an error.
\<close>

theorem resolveId_unmatched_witness:
  "string_link (JString ''Text/chap1.xhtml'') = Inr (parseLink_spec ''Text/chap1.xhtml'')
   \<and> string_link (JString ''Text/gone.xhtml'') = Inr (parseLink_spec ''Text/gone.xhtml'')
   \<and> link_name (parseLink_spec ''Text/chap1.xhtml'') \<noteq> link_name (parseLink_spec ''Text/gone.xhtml'')
   \<and> resolveIdFromLink string_link (Some (typed_manifest [(''chap1'', ''Text/chap1.xhtml'')]))
        (JString ''Text/gone.xhtml'') = Inr (JString [])
   \<and> resolveIdFromLink string_link None (JString ''Text/gone.xhtml'') = Inr (JString [])
   \<and> resolveIdFromLink string_link (Some [\<lparr>href = JUndefined, id_m = JString ''chap1''\<rparr>])
        (JString ''Text/gone.xhtml'') = Inl TypeError
   \<and> string_link (href \<lparr>href = JUndefined, id_m = JString ''chap1''\<rparr>) = Inl TypeError"
proof -
  have s1: "string_link (JString ''Text/chap1.xhtml'') = Inr (parseLink_spec ''Text/chap1.xhtml'')"
    and s2: "string_link (JString ''Text/gone.xhtml'') = Inr (parseLink_spec ''Text/gone.xhtml'')"
    by (simp_all add: string_link_def)
  have h: "link_name (parseLink_spec ''Text/chap1.xhtml'') \<noteq> link_name (parseLink_spec ''Text/gone.xhtml'')"
    by (simp add: parseLink_spec_def)
  have q: "\<forall>item \<in> set (typed_manifest [(''chap1'', ''Text/chap1.xhtml'')]).
      \<exists>l'. string_link (href item) = Inr l'
          \<and> (\<forall>l. string_link (JString ''Text/gone.xhtml'') = Inr l \<longrightarrow> link_name l' \<noteq> link_name l)"
    using h by (simp add: typed_manifest_def string_link_def)
  have t: "resolveIdFromLink string_link (Some [\<lparr>href = JUndefined, id_m = JString ''chap1''\<rparr>])
        (JString ''Text/gone.xhtml'') = Inl TypeError"
    by (simp add: resolveIdFromLink_def string_link_def ebind_def)
  have u: "string_link (href \<lparr>href = JUndefined, id_m = JString ''chap1''\<rparr>) = Inl TypeError"
    by (simp add: string_link_def)
  show ?thesis
    using s1 s2 h q t u
      resolveId_unmatched [of string_link "JString ''Text/gone.xhtml''"
        "typed_manifest [(''chap1'', ''Text/chap1.xhtml'')]"
        "Some [\<lparr>href = JUndefined, id_m = JString ''chap1''\<rparr>]" TypeError]
    by simp
qed

section \<open>Paths into the archive\<close>

text \<open>
  C6. A path that begins with the separator is looked up from the archive root, without
  the separator and without the content root; any other path is prefixed with the
  content root. The path is decoded before the lookup, and when the archive has no
  such entry the error is \<open>NotFound\<close> with the resolved path, as it was before decoding.
\<close>

theorem resolve_paths:
  "(decodeURI ev rest = Inr d \<longrightarrow>
      resolve ev e (JString (CHR ''/'' # rest))
        = (case zip_e e d of Some t \<Rightarrow> Inr t | None \<Rightarrow> Inl (NotFound rest)))
   \<and> (take 1 p \<noteq> ''/'' \<and> root e = Some r \<and> decodeURI ev (r @ p) = Inr d \<longrightarrow>
      resolve ev e (JString p)
        = (case zip_e e d of Some t \<Rightarrow> Inr t | None \<Rightarrow> Inl (NotFound (r @ p))))"
  by (cases p) (auto simp: resolve_def resolved_path_def ebind_def split: option.splits)

text \<open>The two paths of the scenario of section 8, and an escaped path that the archive lacks.\<close>

theorem resolve_paths_witness:
  "decodeURI sample_env ''META-INF/container.xml'' = Inr ''META-INF/container.xml''
   \<and> resolve sample_env ((sample_epub ''opf'')\<lparr>root := Some ''OEBPS/''\<rparr>)
         (JString ''/META-INF/container.xml'')
       = Inr ''container''
   \<and> sample_archive ''opf'' ''META-INF/container.xml'' = Some ''container''
   \<and> take 1 ''Text/chap1.xhtml'' \<noteq> ''/''
   \<and> resolve sample_env ((sample_epub ''opf'')\<lparr>root := Some ''OEBPS/''\<rparr>) (JString ''Text/chap1.xhtml'')
       = Inr ''one''
   \<and> sample_archive ''opf'' ''OEBPS/Text/chap1.xhtml'' = Some ''one''
   \<and> resolve (sample_env\<lparr>decodeURI := percent_decode\<rparr>)
         ((sample_epub ''opf'')\<lparr>root := Some ''OEBPS/''\<rparr>) (JString ''Text/a%20b.xhtml'')
       = Inl (NotFound ''OEBPS/Text/a%20b.xhtml'')"
proof -
  let ?e = "(sample_epub ''opf'')\<lparr>root := Some ''OEBPS/''\<rparr>"
  have z: "zip_e ?e = sample_archive ''opf''" and r: "root ?e = Some ''OEBPS/''"
    by (simp_all add: sample_epub_def new_epub_def)
  have d1: "decodeURI sample_env ''META-INF/container.xml'' = Inr ''META-INF/container.xml''"
    and d2: "decodeURI sample_env (''OEBPS/'' @ ''Text/chap1.xhtml'') = Inr ''OEBPS/Text/chap1.xhtml''"
    by (simp_all add: sample_env_def)
  have d3: "decodeURI (sample_env\<lparr>decodeURI := percent_decode\<rparr>) (''OEBPS/'' @ ''Text/a%20b.xhtml'')
              = Inr ''OEBPS/Text/a b.xhtml''"
    by (simp add: percent_decode_def)
  have a1: "sample_archive ''opf'' ''META-INF/container.xml'' = Some ''container''"
    and a2: "sample_archive ''opf'' ''OEBPS/Text/chap1.xhtml'' = Some ''one''"
    and a3: "sample_archive ''opf'' ''OEBPS/Text/a b.xhtml'' = None"
    by (simp_all add: sample_archive_def)
  have n2: "take 1 ''Text/chap1.xhtml'' \<noteq> ''/''" and n3: "take 1 ''Text/a%20b.xhtml'' \<noteq> ''/''"
    by simp_all
  show ?thesis
    using resolve_paths [of sample_env "''META-INF/container.xml''" "''META-INF/container.xml''" ?e
        "''Text/chap1.xhtml''" "''OEBPS/''"]
      resolve_paths [of sample_env "''OEBPS/Text/chap1.xhtml''" "''OEBPS/Text/chap1.xhtml''" ?e
        "''Text/chap1.xhtml''" "''OEBPS/''"]
      resolve_paths [of "sample_env\<lparr>decodeURI := percent_decode\<rparr>" "''x''" "''OEBPS/Text/a b.xhtml''" ?e
        "''Text/a%20b.xhtml''" "''OEBPS/''"]
      z r d1 d2 d3 a1 a2 a3 n2 n3
    by simp
qed

section \<open>Fields of the metadata record\<close>













lemma mapM_Inr:
  "mapM f xs = Inr ys \<longleftrightarrow> length ys = length xs \<and> (\<forall>i<length xs. f (xs ! i) = Inr (ys ! i))"
proof (induction xs arbitrary: ys)
  case Nil
  then show ?case by auto
next
  case (Cons x xs)
  show ?case
  proof (cases "f x")
    case (Inl err)
    then show ?thesis by (auto simp: nth_Cons split: nat.splits) 
  next
    case fx: (Inr y)
    show ?thesis
    proof (cases "mapM f xs")
      case (Inl err)
      then have "\<not> (length zs = length xs \<and> (\<forall>i<length xs. f (xs ! i) = Inr (zs ! i)))" for zs
        using Cons.IH [of zs] by simp
      then show ?thesis using Inl fx
        by (cases ys) (auto simp: nth_Cons split: nat.splits)
    next
      case (Inr zs)
      then have zs: "length zs = length xs \<and> (\<forall>i<length xs. f (xs ! i) = Inr (zs ! i))"
        using Cons.IH [of zs] by simp
      show ?thesis
      proof (cases ys)
        case Nil
        then show ?thesis using Inr fx by simp
      next
        case ys: (Cons y' ys')
        have "(\<forall>i<Suc (length xs). f ((x # xs) ! i) = Inr ((y' # ys') ! i))
                \<longleftrightarrow> f x = Inr y' \<and> (\<forall>i<length xs. f (xs ! i) = Inr (ys' ! i))"
          by (auto simp: nth_Cons split: nat.splits)
        moreover have "ys' = zs" if "length ys' = length xs" "\<forall>i<length xs. f (xs ! i) = Inr (ys' ! i)"
          using that Cons.IH [of ys'] Inr by simp
        ultimately show ?thesis using Inr fx ys zs by auto
      qed
    qed
  qed
qed







section \<open>Stages of a parse\<close>


lemma toc_stage_Inr:
  assumes "toc_stage ev e = Inr e'"
  shows "truthy (tocFile e)
           \<and> (\<exists>t s. resolveXMLAsJsObject ev e (tocFile e) = Inr t
                  \<and> genStructure (parseLink ev) (manifest e) t = Inr s
                  \<and> e' = e\<lparr>toc := t, structure_e := Some s\<rparr>)
         \<or> \<not> truthy (tocFile e) \<and> e' = e"
  using assms by (auto simp: toc_stage_def ebind_Inr split: if_splits)

text \<open>A parse returns a document exactly when each of its stages returns, one after the other.\<close>

lemma parse_Inr:
  "parse ev e0 = Inr d \<longleftrightarrow>
   (\<exists>opf c r ms e7 sp mi ss.
    getOpfPath ev e0 = Inr opf
    \<and> resolveXMLAsJsObject ev (e0\<lparr>opfPath := opf\<rparr>) (JString (''/'' @ js_to_string opf)) = Inr c
    \<and> determineRoot ev opf = Inr r
    \<and> getManifest (manifest e0) c = Inr ms
    \<and> toc_stage ev (e0\<lparr>opfPath := opf, content := c, root := Some r, manifest := Some ms,
                      metadata := get c [''package'', ''metadata''] (JObject []),
                      tocFile := (case find (\<lambda>m. id_m m = JString ''ncx'') ms of
                                    None \<Rightarrow> JUndefined | Some m \<Rightarrow> href m)\<rparr>) = Inr e7
    \<and> getSpine e7 = Inr sp
    \<and> parseMetadata (metadata e7) = Inr mi
    \<and> resolveSections ev (e7\<lparr>spine := Some sp, info := Some mi\<rparr>) None = Inr ss
    \<and> d = e7\<lparr>spine := Some sp, info := Some mi, sections := Some ss\<rparr>)"
  unfolding parse_def Let_def ebind_Inr by (simp add: eq_commute [of d])

section \<open>Spine and sections\<close>

text \<open>
  The spine is the object that the assignments \<^verbatim>\<open>spine[idref] = i\<close> build, one after
  the other, from the empty object.
\<close>

lemma spine_entries_foldl:
  "spine_entries items i sp = Inr sp' \<Longrightarrow>
   sp' = foldl (\<lambda>acc (k, j). object_set acc k j) sp
           (zip (map (\<lambda>item. js_to_string (member_js item ''@idref'')) items) [i..<i + length items])"
proof (induction items arbitrary: i sp)
  case Nil
  then show ?case by simp
next
  case (Cons item items)
  let ?key = "\<lambda>item. js_to_string (member_js item ''@idref'')"
  from Cons.prems have rest:
    "spine_entries items (Suc i) (object_set sp (?key item) i) = Inr sp'"
    by (auto simp: ebind_Inr get_prop_def split: if_splits)
  have "[i..<i + length (item # items)] = i # [Suc i..<Suc i + length items]"
    using upt_conv_Cons [of i "i + length (item # items)"] by simp
  with Cons.IH [OF rest] show ?case by simp
qed

lemma map_of_object_set:
  "map_of (object_set al k v) = (if k = ''__proto__'' then map_of al else (map_of al)(k \<mapsto> v))"
  by (simp add: object_set_def update_conv')

lemma keys_object_set:
  "map fst (object_set al k v)
     = (if k = ''__proto__'' \<or> k \<in> set (map fst al) then map fst al else map fst al @ [k])"
  by (simp add: object_set_def update_keys)

text \<open>An id holds the index of its last reference; \<^verbatim>\<open>__proto__\<close> is never a key.\<close>

lemma spine_last:
  "map_of (foldl (\<lambda>acc (k, j). object_set acc k j) [] (zip ks [0..<length ks])) x = Some i
   \<longleftrightarrow> x \<noteq> ''__proto__'' \<and> i < length ks \<and> ks ! i = x \<and> (\<forall>j<length ks. i < j \<longrightarrow> ks ! j \<noteq> x)"
proof (induction ks arbitrary: i rule: rev_induct)
  case Nil
  then show ?case by simp
next
  case (snoc k ks)
  let ?n = "length ks"
  have z: "zip (ks @ [k]) [0..<length (ks @ [k])] = zip ks [0..<?n] @ [(k, ?n)]"
    by simp
  let ?sp = "foldl (\<lambda>acc (k, j). object_set acc k j) [] (zip ks [0..<?n])"
  have m: "map_of (foldl (\<lambda>acc (k, j). object_set acc k j) [] (zip (ks @ [k]) [0..<length (ks @ [k])])) x
        = (if k = ''__proto__'' then map_of ?sp x else ((map_of ?sp)(k \<mapsto> ?n)) x)"
    unfolding z by (simp add: map_of_object_set)
  have last: "(ks @ [k]) ! ?n = k" by simp
  show ?case
  proof (cases "x = k")
    case True
    show ?thesis
    proof (cases "k = ''__proto__''")
      case p: True
      with True m snoc.IH [of i] show ?thesis by simp
    next
      case p: False
      have "i = ?n \<longleftrightarrow> i < Suc ?n \<and> (ks @ [k]) ! i = k \<and> (\<forall>j<Suc ?n. i < j \<longrightarrow> (ks @ [k]) ! j \<noteq> k)"
      proof
        assume "i = ?n"
        then show "i < Suc ?n \<and> (ks @ [k]) ! i = k \<and> (\<forall>j<Suc ?n. i < j \<longrightarrow> (ks @ [k]) ! j \<noteq> k)"
          by simp
      next
        assume h: "i < Suc ?n \<and> (ks @ [k]) ! i = k \<and> (\<forall>j<Suc ?n. i < j \<longrightarrow> (ks @ [k]) ! j \<noteq> k)"
        show "i = ?n"
        proof (rule ccontr)
          assume "i \<noteq> ?n"
          with h have "i < ?n" by simp
          moreover from h have "\<forall>j<Suc ?n. i < j \<longrightarrow> (ks @ [k]) ! j \<noteq> k" by simp
          ultimately have "(ks @ [k]) ! ?n \<noteq> k" by blast
          with last show False by simp
        qed
      qed
      with True p m show ?thesis by auto
    qed
  next
    case False
    have "(i < ?n \<and> ks ! i = x \<and> (\<forall>j<?n. i < j \<longrightarrow> ks ! j \<noteq> x))
        \<longleftrightarrow> (i < Suc ?n \<and> (ks @ [k]) ! i = x \<and> (\<forall>j<Suc ?n. i < j \<longrightarrow> (ks @ [k]) ! j \<noteq> x))"
      using False by (auto simp: nth_append less_Suc_eq)
    with False m snoc.IH [of i] show ?thesis by simp
  qed
qed

lemma fold_keys_distinct:
  "distinct (map fst sp) \<Longrightarrow> distinct (map fst (foldl (\<lambda>acc (k, j). object_set acc k j) sp ps))"
  by (induction ps arbitrary: sp) (auto simp: object_set_def distinct_update)

text \<open>The keys are in the order of their first reference.\<close>

lemma fold_keys:
  "map fst (foldl (\<lambda>acc (k, j). object_set acc k j) sp ps)
     = foldl (\<lambda>acc x. if x \<in> set acc then acc else acc @ [x]) (map fst sp)
         (filter (\<lambda>k. k \<noteq> ''__proto__'') (map fst ps))"
proof (induction ps arbitrary: sp)
  case Nil
  then show ?case by simp
next
  case (Cons p ps)
  obtain k j where p: "p = (k, j)" by (cases p)
  have "k \<in> set (map fst sp) \<longleftrightarrow> k \<in> fst ` set sp" by simp
  then show ?case
    unfolding p by (simp add: Cons.IH keys_object_set del: set_map)
qed

lemma as_array_wrap: "as_array (if is_array x then x else JArray [x]) = as_array x"
  by (cases x) (simp_all add: as_array_def)

lemma getManifest_no_content: "\<exists>ms. getManifest m JUndefined = Inr ms"
  by (cases m) (simp_all add: getManifest_def)

lemma getSpine_Inr:
  "getSpine e = Inr sp \<longleftrightarrow>
     spine_entries (as_array (get (content e) [''package'', ''spine'', ''itemref''] (JArray []))) 0 []
       = Inr sp"
  using getManifest_no_content [of "manifest e"]
  by (auto simp: getSpine_def ebind_def Let_def as_array_wrap simp del: get.simps)

lemma object_keys_plain:
  "\<forall>k \<in> set (map fst obj). \<not> is_array_index k \<Longrightarrow> object_keys obj = map fst obj"
  by (simp add: object_keys_def filter_empty_conv [THEN iffD2])

lemma object_keys_distinct: "distinct (map fst obj) \<Longrightarrow> distinct (object_keys obj)"
  by (auto simp: object_keys_def)

lemma set_object_keys: "set (object_keys obj) = set (map fst obj)"
  by (auto simp: object_keys_def)

lemma spread_set_fold:
  "distinct (acc @ xs) \<Longrightarrow>
     foldl (\<lambda>acc x. if x \<in> set acc then acc else acc @ [x]) acc xs = acc @ xs"
  by (induction xs arbitrary: acc) auto

lemma spread_set_distinct: "distinct xs \<Longrightarrow> spread_set xs = xs"
  using spread_set_fold [of "[]" xs] by (simp add: spread_set_def)

lemma spread_set_fold_set:
  "set (foldl (\<lambda>acc x. if x \<in> set acc then acc else acc @ [x]) acc xs) = set acc \<union> set xs"
  by (induction xs arbitrary: acc) auto

lemma set_spread_set: "set (spread_set xs) = set xs"
  by (simp add: spread_set_def spread_set_fold_set)

lemma resolve_fields:
  "root e = root e' \<Longrightarrow> zip_e e = zip_e e' \<Longrightarrow> resolve ev e = resolve ev e'"
  by (rule ext) (simp add: resolve_def)

lemma resolveSection_fields:
  assumes "manifest e = manifest e'" "root e = root e'" "zip_e e = zip_e e'" "options e = options e'"
  shows "resolveSection ev e = resolveSection ev e'"
proof -
  have r: "resolve ev e = resolve ev e'"
    by (rule resolve_fields) fact+
  show ?thesis
    unfolding resolveSection_def r assms(1) assms(4) by (rule refl)
qed

lemma toc_stage_fields:
  assumes "toc_stage ev e = Inr e'"
  shows "zip_e e' = zip_e e \<and> opfPath e' = opfPath e \<and> root e' = root e \<and> content e' = content e
     \<and> manifest e' = manifest e \<and> spine e' = spine e \<and> metadata e' = metadata e
     \<and> options e' = options e \<and> info e' = info e \<and> sections e' = sections e
     \<and> tocFile e' = tocFile e"
  using toc_stage_Inr [OF assms] by auto

lemma resolveSection_item:
  "resolveSection ev e k = Inr s \<Longrightarrow>
     \<exists>ms item. manifest e = Some ms \<and> find (\<lambda>m. id_m m = JString k) ms = Some item
        \<and> (\<exists>t. resolve ev e (href item) = Inr t)"
  by (auto simp: resolveSection_def ebind_Inr split: option.splits)

lemma map_of_zip_upt:
  assumes "distinct ks"
  shows "map_of (zip ks [0..<length ks]) x = Some i \<longleftrightarrow> i < length ks \<and> ks ! i = x"
proof
  assume "map_of (zip ks [0..<length ks]) x = Some i"
  then have "(x, i) \<in> set (zip ks [0..<length ks])" by (rule map_of_SomeD)
  then show "i < length ks \<and> ks ! i = x" by (auto simp: in_set_zip)
next
  assume h: "i < length ks \<and> ks ! i = x"
  then have "map_of (zip ks [0..<length ks]) (ks ! i) = Some ([0..<length ks] ! i)"
    using assms by (intro map_of_zip_nth) simp_all
  with h show "map_of (zip ks [0..<length ks]) x = Some i" by simp
qed

lemma update_fresh_end: "k \<notin> fst ` set al \<Longrightarrow> AList.update k v al = al @ [(k, v)]"
  by (induction al) auto

lemma fold_fresh:
  "distinct (map fst ps) \<Longrightarrow> set (map fst ps) \<inter> set (map fst sp) = {} \<Longrightarrow>
   ''__proto__'' \<notin> set (map fst ps) \<Longrightarrow>
   foldl (\<lambda>acc (k, j). object_set acc k j) sp ps = sp @ ps"
proof (induction ps arbitrary: sp)
  case Nil
  then show ?case by simp
next
  case (Cons p ps)
  obtain k j where p: "p = (k, j)" by (cases p)
  have "object_set sp k j = sp @ [(k, j)]"
    using Cons.prems p by (auto simp: object_set_def update_fresh_end)
  moreover have "foldl (\<lambda>acc (k, j). object_set acc k j) (sp @ [(k, j)]) ps = (sp @ [(k, j)]) @ ps"
    using Cons.prems p by (intro Cons.IH) auto
  ultimately show ?case using p by simp
qed

text \<open>
  C4, amended. After a parse the spine has each id once, an id holds the index of
  its last item reference, and \<^verbatim>\<open>__proto__\<close> is never a key. The eager pass gives
  one section per key of the spine, in the order of \<^verbatim>\<open>Object.keys\<close>, each resolved
  from its key, which is a manifest id: repeated references do not make it fail. When
  no reference is an array index or \<^verbatim>\<open>__proto__\<close>, that order is the order of the
  first references. When the references are moreover pairwise distinct, the spine
  maps them, in their declared order, to \<open>0..n-1\<close>, the \<open>i\<close>-th section is resolved
  from the \<open>i\<close>-th reference, and the spine holds \<open>i\<close> for \<open>x\<close> exactly when \<open>x\<close> is
  the \<open>i\<close>-th reference.
\<close>

theorem spine_sections_aligned:
  assumes "parse ev e0 = Inr d"
  shows "manifest d \<noteq> None \<and> spine d \<noteq> None \<and> sections d \<noteq> None
     \<and> distinct (map fst (the (spine d)))
     \<and> (\<forall>x i. map_of (the (spine d)) x = Some i
           \<longleftrightarrow> x \<noteq> ''__proto__'' \<and> i < length (spine_idrefs (content d))
               \<and> spine_idrefs (content d) ! i = x
               \<and> (\<forall>j < length (spine_idrefs (content d)). i < j \<longrightarrow> spine_idrefs (content d) ! j \<noteq> x))
     \<and> distinct (object_keys (the (spine d)))
     \<and> set (object_keys (the (spine d))) = set (spine_idrefs (content d)) - {''__proto__''}
     \<and> length (the (sections d)) = length (object_keys (the (spine d)))
     \<and> (\<forall>i < length (the (sections d)).
           resolveSection ev d (object_keys (the (spine d)) ! i) = Inr (the (sections d) ! i)
           \<and> (\<exists>m \<in> set (the (manifest d)). id_m m = JString (object_keys (the (spine d)) ! i)))
     \<and> ((\<forall>k \<in> set (spine_idrefs (content d)). \<not> is_array_index k \<and> k \<noteq> ''__proto__'')
          \<longrightarrow> object_keys (the (spine d)) = spread_set (spine_idrefs (content d)))
     \<and> (distinct (spine_idrefs (content d))
          \<and> (\<forall>k \<in> set (spine_idrefs (content d)). \<not> is_array_index k \<and> k \<noteq> ''__proto__'')
          \<longrightarrow> spine d = Some (zip (spine_idrefs (content d)) [0..<length (spine_idrefs (content d))])
              \<and> length (the (sections d)) = length (spine_idrefs (content d))
              \<and> (\<forall>i < length (spine_idrefs (content d)).
                    resolveSection ev d (spine_idrefs (content d) ! i) = Inr (the (sections d) ! i)
                    \<and> (\<exists>m \<in> set (the (manifest d)). id_m m = JString (spine_idrefs (content d) ! i)))
              \<and> (\<forall>x i. map_of (the (spine d)) x = Some i
                    \<longleftrightarrow> i < length (spine_idrefs (content d)) \<and> spine_idrefs (content d) ! i = x))"
proof -
  from assms [unfolded parse_Inr] obtain opf c r ms e7 sp mi ss where
    man: "getManifest (manifest e0) c = Inr ms"
    and toc: "toc_stage ev (e0\<lparr>opfPath := opf, content := c, root := Some r, manifest := Some ms,
                      metadata := get c [''package'', ''metadata''] (JObject []),
                      tocFile := (case find (\<lambda>m. id_m m = JString ''ncx'') ms of
                                    None \<Rightarrow> JUndefined | Some m \<Rightarrow> href m)\<rparr>) = Inr e7"
    and sp: "getSpine e7 = Inr sp"
    and ss: "resolveSections ev (e7\<lparr>spine := Some sp, info := Some mi\<rparr>) None = Inr ss"
    and d: "d = e7\<lparr>spine := Some sp, info := Some mi, sections := Some ss\<rparr>"
    by blast
  let ?ids = "spine_idrefs (content d)"
  let ?n = "length ?ids"
  note f = toc_stage_fields [OF toc]
  have c: "content d = c" and m: "manifest d = Some ms" using f d by simp_all
  have spd: "spine d = Some sp" and secd: "sections d = Some ss" using d by simp_all
  define items where "items = as_array (get c [''package'', ''spine'', ''itemref''] (JArray []))"
  have ids: "?ids = map (\<lambda>item. js_to_string (member_js item ''@idref'')) items"
    unfolding c spine_idrefs_def items_def by (rule refl)
  have se: "spine_entries items 0 [] = Inr sp"
    using sp f unfolding getSpine_Inr items_def by simp
  have sp_fold: "sp = foldl (\<lambda>acc (k, j). object_set acc k j) [] (zip ?ids [0..<?n])"
    using spine_entries_foldl [OF se] unfolding ids by simp
  have dk: "distinct (map fst sp)"
    unfolding sp_fold by (rule fold_keys_distinct) simp
  have last: "map_of sp x = Some i
           \<longleftrightarrow> x \<noteq> ''__proto__'' \<and> i < ?n \<and> ?ids ! i = x \<and> (\<forall>j < ?n. i < j \<longrightarrow> ?ids ! j \<noteq> x)"
    for x i
    unfolding sp_fold by (rule spine_last)
  have keys: "map fst sp = foldl (\<lambda>acc x. if x \<in> set acc then acc else acc @ [x]) []
                             (filter (\<lambda>k. k \<noteq> ''__proto__'') ?ids)"
    unfolding sp_fold fold_keys by simp
  have dok: "distinct (object_keys sp)" using dk by (rule object_keys_distinct)
  have sok: "set (object_keys sp) = set ?ids - {''__proto__''}"
    unfolding set_object_keys keys spread_set_fold_set by auto
  have list: "spread_set (object_keys sp) = object_keys sp"
    using dok by (rule spread_set_distinct)
  let ?e9 = "e7\<lparr>spine := Some sp, info := Some mi\<rparr>"
  have "mapM (resolveSection ev ?e9) (object_keys sp) = Inr ss"
    using ss list by (simp add: resolveSections_def)
  then have len: "length ss = length (object_keys sp)"
    and nth: "\<forall>i<length (object_keys sp). resolveSection ev ?e9 (object_keys sp ! i) = Inr (ss ! i)"
    unfolding mapM_Inr by simp_all
  have same: "resolveSection ev ?e9 = resolveSection ev d"
    unfolding d by (rule resolveSection_fields) simp_all
  have item: "\<exists>m \<in> set ms. id_m m = JString (object_keys sp ! i)" if "i < length (object_keys sp)" for i
  proof -
    from nth that have "resolveSection ev d (object_keys sp ! i) = Inr (ss ! i)" using same by simp
    from resolveSection_item [OF this] m obtain it where
      "find (\<lambda>m. id_m m = JString (object_keys sp ! i)) ms = Some it" by auto
    then show ?thesis unfolding find_Some_iff by (metis nth_mem)
  qed
  have plain: "object_keys sp = spread_set ?ids"
    if h: "\<forall>k \<in> set ?ids. \<not> is_array_index k \<and> k \<noteq> ''__proto__''"
  proof -
    from h have "filter (\<lambda>k. k \<noteq> ''__proto__'') ?ids = ?ids" by (simp add: filter_id_conv)
    then have k: "map fst sp = spread_set ?ids" unfolding keys spread_set_def by simp
    have "\<forall>k \<in> set (map fst sp). \<not> is_array_index k"
      unfolding k set_spread_set using h by blast
    from object_keys_plain [OF this] k show ?thesis by simp
  qed
  have a1: "manifest d \<noteq> None" using m by simp
  have a2: "spine d \<noteq> None" using spd by simp
  have a3: "sections d \<noteq> None" using secd by simp
  have a4: "distinct (map fst (the (spine d)))" using dk spd by simp
  have a5: "\<forall>x i. map_of (the (spine d)) x = Some i
           \<longleftrightarrow> x \<noteq> ''__proto__'' \<and> i < ?n \<and> ?ids ! i = x \<and> (\<forall>j < ?n. i < j \<longrightarrow> ?ids ! j \<noteq> x)"
    using last spd by simp
  have a6: "distinct (object_keys (the (spine d)))" using dok spd by simp
  have a7: "set (object_keys (the (spine d))) = set ?ids - {''__proto__''}" using sok spd by simp
  have a8: "length (the (sections d)) = length (object_keys (the (spine d)))"
    using len spd secd by simp
  have a9: "\<forall>i < length (the (sections d)).
           resolveSection ev d (object_keys (the (spine d)) ! i) = Inr (the (sections d) ! i)
           \<and> (\<exists>m \<in> set (the (manifest d)). id_m m = JString (object_keys (the (spine d)) ! i))"
    using nth item same secd spd m len by simp
  have a10: "(\<forall>k \<in> set ?ids. \<not> is_array_index k \<and> k \<noteq> ''__proto__'')
          \<longrightarrow> object_keys (the (spine d)) = spread_set ?ids"
    using plain spd by simp
  have a11: "distinct ?ids \<and> (\<forall>k \<in> set ?ids. \<not> is_array_index k \<and> k \<noteq> ''__proto__'')
          \<longrightarrow> spine d = Some (zip ?ids [0..<?n])
              \<and> length (the (sections d)) = ?n
              \<and> (\<forall>i < ?n.
                    resolveSection ev d (?ids ! i) = Inr (the (sections d) ! i)
                    \<and> (\<exists>m \<in> set (the (manifest d)). id_m m = JString (?ids ! i)))
              \<and> (\<forall>x i. map_of (the (spine d)) x = Some i \<longleftrightarrow> i < ?n \<and> ?ids ! i = x)"
  proof (intro impI, elim conjE)
    assume dis: "distinct ?ids"
      and h: "\<forall>k \<in> set ?ids. \<not> is_array_index k \<and> k \<noteq> ''__proto__''"
    have ok: "object_keys sp = ?ids"
      using plain [OF h] dis by (simp add: spread_set_distinct)
    have "sp = [] @ zip ?ids [0..<?n]"
      unfolding sp_fold using dis h by (intro fold_fresh) auto
    then have sp_eq: "sp = zip ?ids [0..<?n]" by simp
    have b1: "spine d = Some (zip ?ids [0..<?n])" using spd sp_eq by simp
    have b2: "length (the (sections d)) = ?n" using len ok secd by simp
    have b3: "\<forall>i < ?n. resolveSection ev d (?ids ! i) = Inr (the (sections d) ! i)
                    \<and> (\<exists>m \<in> set (the (manifest d)). id_m m = JString (?ids ! i))"
      using nth item same secd m ok by simp
    have b4: "\<forall>x i. map_of (the (spine d)) x = Some i \<longleftrightarrow> i < ?n \<and> ?ids ! i = x"
      using map_of_zip_upt [OF dis] b1 by simp
    show "spine d = Some (zip ?ids [0..<?n])
              \<and> length (the (sections d)) = ?n
              \<and> (\<forall>i < ?n.
                    resolveSection ev d (?ids ! i) = Inr (the (sections d) ! i)
                    \<and> (\<exists>m \<in> set (the (manifest d)). id_m m = JString (?ids ! i)))
              \<and> (\<forall>x i. map_of (the (spine d)) x = Some i \<longleftrightarrow> i < ?n \<and> ?ids ! i = x)"
      by (intro conjI) (rule b1 b2 b3 b4)+
  qed
  show ?thesis
    by (intro conjI) (rule a1 a2 a3 a4 a5 a6 a7 a8 a9 a10 a11)+
qed

section \<open>The sample container, parsed\<close>

lemmas sample_defs =
  sample_env_def sample_epub_def sample_archive_def sample_xml_def sample_items_def
  container_doc_def bare_container_doc_def opf_doc_def ncx_doc_def nav_point_def new_epub_def
  defaultOptions_def
  parseLink_spec_def string_link_def

lemmas run_defs =
  parse_def getOpfPath_def full_path_def resolveXMLAsJsObject_def resolve_def resolved_path_def
  ebind_def get_prop_def getManifest_def manifest_item_def toc_stage_def genStructure_def
  as_array_def resolveIdFromLink_def getSpine_def object_set_def parseMetadata_def
  metadata_field_def author_field_def opt_prop_def pickBy_def resolveSections_def
  resolveSection_def spread_set_def object_keys_def is_array_index_def is_digit_def
  index_value_def

lemma sample_parse:
  "parse sample_env (sample_epub ''opf'') =
     Inr \<lparr>zip_e = sample_archive ''opf'', opfPath = JString ''OEBPS/content.opf'',
          root = Some ''OEBPS/'', content = opf_doc sample_items [''chap1'', ''chap2''],
          manifest = Some [\<lparr>href = JString ''Text/chap1.xhtml'', id_m = JString ''chap1''\<rparr>,
                           \<lparr>href = JString ''Text/chap2.xhtml'', id_m = JString ''chap2''\<rparr>,
                           \<lparr>href = JString ''toc.ncx'', id_m = JString ''ncx''\<rparr>],
          spine = Some [(''chap1'', 0), (''chap2'', 1)],
          toc = ncx_doc,
          metadata = JObject [(''dc:title'', JString ''A Book''),
                              (''dc:creator'', JObject [(''#text'', JString ''An Author'')])],
          options = defaultOptions,
          structure_e = Some
           [TOCItem (JString ''One'') (JString ''chap1'') (JString ''n1'') (JString ''Text/chap1.xhtml'')
              (PlayRaw (JString ''1'')) (Inl JUndefined),
            TOCItem (JString ''Two'') (JString ''chap2'') (JString ''s1'') (JString ''Text/chap2.xhtml#s1'')
              (PlayRaw (JString ''2'')) (Inl JUndefined),
            TOCItem (JString ''Gone'') (JString []) (JString ''n3'') (JString ''Text/gone.xhtml'')
              (PlayRaw (JString ''3'')) (Inl JUndefined)],
          info = Some [(''title'', JString ''A Book''), (''author'', JArray [JString ''An Author''])],
          sections = Some [(''chap1'', ''one''), (''chap2'', ''two'')],
          tocFile = JString ''toc.ncx''\<rparr>"
  by (simp add: run_defs sample_defs)

lemma sample_parsed: "parse sample_env (sample_epub ''opf'') = Inr (parsed ''opf'')"
  unfolding parsed_def sample_parse by simp

lemma sample_fields:
  "manifest (parsed ''opf'') = Some [\<lparr>href = JString ''Text/chap1.xhtml'', id_m = JString ''chap1''\<rparr>,
                           \<lparr>href = JString ''Text/chap2.xhtml'', id_m = JString ''chap2''\<rparr>,
                           \<lparr>href = JString ''toc.ncx'', id_m = JString ''ncx''\<rparr>]"
  "spine (parsed ''opf'') = Some [(''chap1'', 0), (''chap2'', 1)]"
  "sections (parsed ''opf'') = Some [(''chap1'', ''one''), (''chap2'', ''two'')]"
  "content (parsed ''opf'') = opf_doc sample_items [''chap1'', ''chap2'']"
  "root (parsed ''opf'') = Some ''OEBPS/''"
  "zip_e (parsed ''opf'') = sample_archive ''opf''"
  "options (parsed ''opf'') = defaultOptions"
  "tocFile (parsed ''opf'') = JString ''toc.ncx''"
  unfolding parsed_def sample_parse by simp_all

lemma sample_idrefs: "spine_idrefs (opf_doc items refs) = refs"
  by (simp add: spine_idrefs_def opf_doc_def as_array_def comp_def)

lemma twice_parse:
  "map_sum (\<lambda>e. e) (\<lambda>d. (spine d, sections d, content d, manifest d, root d, zip_e d, options d))
     (parse sample_env (sample_epub ''opf-twice''))
   = Inr (Some [(''chap1'', 2), (''chap2'', 1)], Some [(''chap1'', ''one''), (''chap2'', ''two'')],
          opf_doc sample_items [''chap1'', ''chap2'', ''chap1''],
          Some [\<lparr>href = JString ''Text/chap1.xhtml'', id_m = JString ''chap1''\<rparr>,
                           \<lparr>href = JString ''Text/chap2.xhtml'', id_m = JString ''chap2''\<rparr>,
                           \<lparr>href = JString ''toc.ncx'', id_m = JString ''ncx''\<rparr>],
          Some ''OEBPS/'', sample_archive ''opf-twice'', defaultOptions)"
  by (simp add: run_defs sample_defs)

lemma digits_parse:
  "map_sum (\<lambda>e. e) (\<lambda>d. (spine d, sections d, content d))
     (parse sample_env (sample_epub ''opf-digits''))
   = Inr (Some [(''b'', 0), (''1'', 1)], Some [(''1'', ''two''), (''b'', ''one'')],
          opf_doc [(''b'', ''Text/chap1.xhtml''), (''1'', ''Text/chap2.xhtml'')] [''b'', ''1''])"
  by (simp add: run_defs sample_defs)

lemma map_sum_Inr: "map_sum f g p = Inr v \<Longrightarrow> p = Inr (projr p) \<and> g (projr p) = v"
  by (cases p) auto

lemma twice_fields:
  "parse sample_env (sample_epub ''opf-twice'') = Inr (parsed ''opf-twice'')"
  "spine (parsed ''opf-twice'') = Some [(''chap1'', 2), (''chap2'', 1)]"
  "sections (parsed ''opf-twice'') = Some [(''chap1'', ''one''), (''chap2'', ''two'')]"
  "content (parsed ''opf-twice'') = opf_doc sample_items [''chap1'', ''chap2'', ''chap1'']"
  "manifest (parsed ''opf-twice'') = Some [\<lparr>href = JString ''Text/chap1.xhtml'', id_m = JString ''chap1''\<rparr>,
                           \<lparr>href = JString ''Text/chap2.xhtml'', id_m = JString ''chap2''\<rparr>,
                           \<lparr>href = JString ''toc.ncx'', id_m = JString ''ncx''\<rparr>]"
  "root (parsed ''opf-twice'') = Some ''OEBPS/''"
  "zip_e (parsed ''opf-twice'') = sample_archive ''opf-twice''"
  "options (parsed ''opf-twice'') = defaultOptions"
  using map_sum_Inr [OF twice_parse] unfolding parsed_def by simp_all

lemma digits_fields:
  "parse sample_env (sample_epub ''opf-digits'') = Inr (parsed ''opf-digits'')"
  "spine (parsed ''opf-digits'') = Some [(''b'', 0), (''1'', 1)]"
  "sections (parsed ''opf-digits'') = Some [(''1'', ''two''), (''b'', ''one'')]"
  "content (parsed ''opf-digits'')
     = opf_doc [(''b'', ''Text/chap1.xhtml''), (''1'', ''Text/chap2.xhtml'')] [''b'', ''1'']"
  using map_sum_Inr [OF digits_parse] unfolding parsed_def by simp_all

text \<open>
  The sample container: two references, two sections in the same order. With
  \<^verbatim>\<open>chap1\<close> referred to twice: two sections, in the order of the first references,
  and \<^verbatim>\<open>chap1\<close> holds the index of its last reference.
\<close>

theorem spine_sections_aligned_witness:
  "parse sample_env (sample_epub ''opf'') = Inr (parsed ''opf'')
   \<and> spine_idrefs (content (parsed ''opf'')) = [''chap1'', ''chap2'']
   \<and> \<not> is_array_index ''chap1'' \<and> \<not> is_array_index ''chap2''
   \<and> spine (parsed ''opf'') = Some [(''chap1'', 0), (''chap2'', 1)]
   \<and> sections (parsed ''opf'') = Some [(''chap1'', ''one''), (''chap2'', ''two'')]
   \<and> resolveSection sample_env (parsed ''opf'') ''chap1'' = Inr (the (sections (parsed ''opf'')) ! 0)
   \<and> resolveSection sample_env (parsed ''opf'') ''chap2'' = Inr (the (sections (parsed ''opf'')) ! 1)
   \<and> parse sample_env (sample_epub ''opf-twice'') = Inr (parsed ''opf-twice'')
   \<and> spine_idrefs (content (parsed ''opf-twice'')) = [''chap1'', ''chap2'', ''chap1'']
   \<and> object_keys (the (spine (parsed ''opf-twice''))) = [''chap1'', ''chap2'']
   \<and> length (the (sections (parsed ''opf-twice''))) = 2
   \<and> map_of (the (spine (parsed ''opf-twice''))) ''chap1'' = Some 2"
proof -
  have ids: "spine_idrefs (content (parsed ''opf'')) = [''chap1'', ''chap2'']"
    by (simp add: sample_fields sample_idrefs)
  have plain: "\<not> is_array_index ''chap1'' \<and> \<not> is_array_index ''chap2''"
    by (simp add: is_array_index_def is_digit_def)
  have h2: "distinct (spine_idrefs (content (parsed ''opf'')))"
    unfolding ids by simp
  have h3: "\<forall>k \<in> set (spine_idrefs (content (parsed ''opf''))). \<not> is_array_index k \<and> k \<noteq> ''__proto__''"
    unfolding ids using plain by simp
  note t = spine_sections_aligned [OF sample_parsed]
  note t11 = t [THEN conjunct2, THEN conjunct2, THEN conjunct2, THEN conjunct2, THEN conjunct2, THEN conjunct2, THEN conjunct2, THEN conjunct2, THEN conjunct2, THEN conjunct2, THEN mp, OF conjI [OF h2 h3]]
  from t11 [THEN conjunct2, THEN conjunct2, THEN conjunct1]
  have "\<forall>i < length (spine_idrefs (content (parsed ''opf''))).
           resolveSection sample_env (parsed ''opf'') (spine_idrefs (content (parsed ''opf'')) ! i)
             = Inr (the (sections (parsed ''opf'')) ! i)"
    by simp
  then have al: "\<forall>i < 2. resolveSection sample_env (parsed ''opf'') ([''chap1'', ''chap2''] ! i)
             = Inr (the (sections (parsed ''opf'')) ! i)"
    unfolding ids by simp
  from al [rule_format, of 0] al [rule_format, of 1]
  have r: "resolveSection sample_env (parsed ''opf'') ''chap1'' = Inr (the (sections (parsed ''opf'')) ! 0)
    \<and> resolveSection sample_env (parsed ''opf'') ''chap2'' = Inr (the (sections (parsed ''opf'')) ! 1)"
    by simp
  have ids2: "spine_idrefs (content (parsed ''opf-twice'')) = [''chap1'', ''chap2'', ''chap1'']"
    by (simp add: twice_fields sample_idrefs)
  have h4: "\<forall>k \<in> set (spine_idrefs (content (parsed ''opf-twice''))). \<not> is_array_index k \<and> k \<noteq> ''__proto__''"
    unfolding ids2 using plain by simp
  note u = spine_sections_aligned [OF twice_fields(1)]
  from u [THEN conjunct2, THEN conjunct2, THEN conjunct2, THEN conjunct2, THEN conjunct2, THEN conjunct2, THEN conjunct2, THEN conjunct2, THEN conjunct2, THEN conjunct1, THEN mp, OF h4]
  have "object_keys (the (spine (parsed ''opf-twice'')))
      = spread_set (spine_idrefs (content (parsed ''opf-twice'')))" .
  then have k2: "object_keys (the (spine (parsed ''opf-twice''))) = [''chap1'', ''chap2'']"
    unfolding ids2 by (simp add: spread_set_def)
  from u [THEN conjunct2, THEN conjunct2, THEN conjunct2, THEN conjunct2, THEN conjunct2, THEN conjunct2, THEN conjunct2, THEN conjunct1]
  have "length (the (sections (parsed ''opf-twice'')))
      = length (object_keys (the (spine (parsed ''opf-twice''))))" .
  then have l2: "length (the (sections (parsed ''opf-twice''))) = 2" unfolding k2 by simp
  from u [THEN conjunct2, THEN conjunct2, THEN conjunct2, THEN conjunct2, THEN conjunct1, rule_format, of "''chap1''" 2]
  have "map_of (the (spine (parsed ''opf-twice''))) ''chap1'' = Some 2
           \<longleftrightarrow> ''chap1'' \<noteq> ''__proto__'' \<and> (2 :: nat) < 3
               \<and> [''chap1'', ''chap2'', ''chap1''] ! 2 = ''chap1''
               \<and> (\<forall>j < 3. (2 :: nat) < j \<longrightarrow> [''chap1'', ''chap2'', ''chap1''] ! j \<noteq> ''chap1'')"
    unfolding ids2 by simp
  then have m2: "map_of (the (spine (parsed ''opf-twice''))) ''chap1'' = Some 2"
    by (simp add: less_Suc_eq numeral_3_eq_3)
  show ?thesis
    using sample_parsed ids plain sample_fields(2,3) r twice_fields(1) ids2 k2 l2 m2 by simp
qed

text \<open>
  As the claim states it, for every parsed document, it fails. With the references
  \<^verbatim>\<open>chap1, chap2, chap1\<close> parsing succeeds, the spine keeps the last index of
  \<^verbatim>\<open>chap1\<close> (2) and never holds 0, and the section at index 0 is the one of
  \<^verbatim>\<open>chap1\<close>. With the distinct references \<^verbatim>\<open>b, 1\<close> the key \<^verbatim>\<open>1\<close> is an array index:
  \<^verbatim>\<open>Object.keys\<close> lists it first, and the section at index 0 is the one of \<^verbatim>\<open>1\<close>,
  whose spine index is 1.
\<close>

theorem spine_sections_counterexample:
  "parse sample_env (sample_epub ''opf-twice'') = Inr (parsed ''opf-twice'')
   \<and> spine_idrefs (content (parsed ''opf-twice'')) = [''chap1'', ''chap2'', ''chap1'']
   \<and> spine (parsed ''opf-twice'') = Some [(''chap1'', 2), (''chap2'', 1)]
   \<and> sections (parsed ''opf-twice'') = Some [(''chap1'', ''one''), (''chap2'', ''two'')]
   \<and> resolveSection sample_env (parsed ''opf-twice'') ''chap1''
        = Inr (the (sections (parsed ''opf-twice'')) ! 0)
   \<and> map_of (the (spine (parsed ''opf-twice''))) ''chap1'' = Some 2
   \<and> parse sample_env (sample_epub ''opf-digits'') = Inr (parsed ''opf-digits'')
   \<and> spine_idrefs (content (parsed ''opf-digits'')) = [''b'', ''1'']
   \<and> spine (parsed ''opf-digits'') = Some [(''b'', 0), (''1'', 1)]
   \<and> sections (parsed ''opf-digits'') = Some [(''1'', ''two''), (''b'', ''one'')]"
proof -
  have "resolveSection sample_env (parsed ''opf-twice'') ''chap1'' = Inr (''chap1'', ''one'')"
    by (simp add: resolveSection_def resolve_def resolved_path_def ebind_def twice_fields
        sample_env_def sample_archive_def defaultOptions_def)
  then show ?thesis
    by (simp add: twice_fields digits_fields sample_idrefs)
qed

section \<open>Section lookup\<close>

text \<open>
  C5, amended. After a completed parse the spine and the sections are set. For an id
  that is a key of the spine, \<^verbatim>\<open>getSection\<close> returns \<^verbatim>\<open>sections[spine[id]]\<close>. For a
  non-empty id that is neither a key of the spine nor the name of a property of
  \<^verbatim>\<open>Object.prototype\<close>, it returns what the per-item resolution of that id returns,
  its error included.
\<close>

theorem getSection_lookup:
  assumes "parse ev e0 = Inr d"
  shows "spine d \<noteq> None \<and> sections d \<noteq> None
     \<and> (\<forall>x i. map_of (the (spine d)) x = Some i \<longrightarrow>
           getSection ev d x = Inr (array_at (the (sections d)) (int i)))
     \<and> (\<forall>x. x \<noteq> [] \<and> map_of (the (spine d)) x = None \<and> x \<notin> set object_prototype_names \<longrightarrow>
           getSection ev d x
             = (case resolveSection ev d x of Inl err \<Rightarrow> Inl err | Inr s \<Rightarrow> Inr (Value s)))"
proof -
  from assms [unfolded parse_Inr] obtain e7 sp mi ss where
    d: "d = e7\<lparr>spine := Some sp, info := Some mi, sections := Some ss\<rparr>"
    by blast
  have spd: "spine d = Some sp" and secd: "sections d = Some ss" using d by simp_all
  have own: "getSection ev d x = Inr (array_at ss (int i))" if "map_of sp x = Some i" for x i
    using that by (simp add: getSection_def spd secd object_get_def)
  have other: "getSection ev d x
             = (case resolveSection ev d x of Inl err \<Rightarrow> Inl err | Inr s \<Rightarrow> Inr (Value s))"
    if "x \<noteq> []" "map_of sp x = None" "x \<notin> set object_prototype_names" for x
    using that
    by (simp add: getSection_def spd object_get_def resolveSections_def ebind_def array_at_def
        split: sum.splits)
  show ?thesis using own other spd secd by simp
qed

text \<open>On the sample container: \<^verbatim>\<open>chap2\<close> is in the spine, \<^verbatim>\<open>ncx\<close> is only in the manifest.\<close>

theorem getSection_lookup_witness:
  "parse sample_env (sample_epub ''opf'') = Inr (parsed ''opf'')
   \<and> map_of (the (spine (parsed ''opf''))) ''chap2'' = Some 1
   \<and> getSection sample_env (parsed ''opf'') ''chap2'' = Inr (Value (''chap2'', ''two''))
   \<and> the (sections (parsed ''opf'')) ! 1 = (''chap2'', ''two'')
   \<and> map_of (the (spine (parsed ''opf''))) ''ncx'' = None
   \<and> ''ncx'' \<notin> set object_prototype_names
   \<and> resolveSection sample_env (parsed ''opf'') ''ncx'' = Inr (''ncx'', ''ncx'')
   \<and> getSection sample_env (parsed ''opf'') ''ncx'' = Inr (Value (''ncx'', ''ncx''))"
proof -
  note t = getSection_lookup [OF sample_parsed]
  have k: "map_of (the (spine (parsed ''opf''))) ''chap2'' = Some 1"
    and n: "map_of (the (spine (parsed ''opf''))) ''ncx'' = None"
    and p: "''ncx'' \<notin> set object_prototype_names"
    by (simp_all add: sample_fields object_prototype_names_def)
  have r: "resolveSection sample_env (parsed ''opf'') ''ncx'' = Inr (''ncx'', ''ncx'')"
    by (simp add: resolveSection_def resolve_def resolved_path_def ebind_def sample_fields
        sample_env_def sample_archive_def defaultOptions_def)
  from t k have "getSection sample_env (parsed ''opf'') ''chap2''
      = Inr (array_at (the (sections (parsed ''opf''))) (int 1))"
    by blast
  then have g1: "getSection sample_env (parsed ''opf'') ''chap2'' = Inr (Value (''chap2'', ''two''))"
    by (simp add: sample_fields array_at_def)
  from t n p have "getSection sample_env (parsed ''opf'') ''ncx''
      = (case resolveSection sample_env (parsed ''opf'') ''ncx'' of
           Inl err \<Rightarrow> Inl err | Inr s \<Rightarrow> Inr (Value s))"
    by simp
  then have g2: "getSection sample_env (parsed ''opf'') ''ncx'' = Inr (Value (''ncx'', ''ncx''))"
    using r by simp
  show ?thesis using sample_parsed k n p r g1 g2 by (simp add: sample_fields)
qed

text \<open>
  As the claim states it, for any id that is not a spine key, it fails at the empty
  string: \<^verbatim>\<open>if (id)\<close> in \<^verbatim>\<open>_resolveSections\<close> takes it for a missing argument, the
  whole spine is resolved and the first section comes back, while the per-item
  resolution of the empty id finds no manifest item and throws.
\<close>

theorem getSection_empty_id_counterexample:
  "parse sample_env (sample_epub ''opf'') = Inr (parsed ''opf'')
   \<and> map_of (the (spine (parsed ''opf''))) [] = None
   \<and> getSection sample_env (parsed ''opf'') [] = Inr (Value (''chap1'', ''one''))
   \<and> resolveSection sample_env (parsed ''opf'') [] = Inl TypeError"
proof -
  have "getSection sample_env (parsed ''opf'') [] = Inr (Value (''chap1'', ''one''))"
    by (simp add: getSection_def object_get_def object_prototype_names_def resolveSections_def
        spread_set_def object_keys_def is_array_index_def is_digit_def
        resolveSection_def resolve_def resolved_path_def ebind_def sample_fields
        sample_env_def sample_archive_def defaultOptions_def array_at_def)
  moreover have "resolveSection sample_env (parsed ''opf'') [] = Inl TypeError"
    by (simp add: resolveSection_def sample_fields)
  ultimately show ?thesis using sample_parsed by (simp add: sample_fields)
qed

section \<open>Unmatched links in the outline\<close>





section \<open>Fatal errors\<close>




















lemma empty_href_parse:
  "map_sum (\<lambda>e. e) (\<lambda>d. (manifest d, tocFile d, structure_e d))
     (parse sample_env (sample_epub ''opf-empty-href''))
   = Inr (Some [\<lparr>href = JString ''Text/chap1.xhtml'', id_m = JString ''chap1''\<rparr>,
                \<lparr>href = JString [], id_m = JString ''ncx''\<rparr>],
          JString [], None)"
  by (simp add: run_defs sample_defs)

lemma no_ncx_parse:
  "map_sum (\<lambda>e. e) (\<lambda>d. (manifest d, tocFile d, structure_e d, sections d))
     (parse sample_env (sample_epub ''opf-no-ncx''))
   = Inr (Some [\<lparr>href = JString ''Text/chap1.xhtml'', id_m = JString ''chap1''\<rparr>,
                \<lparr>href = JString ''Text/chap2.xhtml'', id_m = JString ''chap2''\<rparr>],
          JUndefined, None, Some [(''chap1'', ''one''), (''chap2'', ''two'')])"
  by (simp add: run_defs sample_defs)



section \<open>Navigation file\<close>

text \<open>
  C10, amended. After the parse of a new document, the navigation file path is the
  href of the first manifest item whose id is exactly \<^verbatim>\<open>ncx\<close>, and \<^verbatim>\<open>undefined\<close>
  when the manifest has no such item; the outline is defined if and only if that path
  is truthy. With a manifest whose hrefs are strings: the path is defined if and only
  if the manifest has such an item, and the outline is defined if and only if the
  path is a string that is not empty.
\<close>

theorem outline_iff_ncx:
  fixes ev :: "('a, 'b) env"
  assumes "parse ev (new_epub z opts) = Inr d"
  shows "manifest d \<noteq> None
    \<and> tocFile d = (case find (\<lambda>m. id_m m = JString ''ncx'') (the (manifest d)) of
                     None \<Rightarrow> JUndefined | Some m \<Rightarrow> href m)
    \<and> (structure_e d \<noteq> None \<longleftrightarrow> truthy (tocFile d))
    \<and> ((\<forall>m \<in> set (the (manifest d)). \<exists>s. href m = JString s) \<longrightarrow>
          (tocFile d \<noteq> JUndefined \<longleftrightarrow> (\<exists>m \<in> set (the (manifest d)). id_m m = JString ''ncx''))
          \<and> (structure_e d \<noteq> None \<longleftrightarrow> (\<exists>f. tocFile d = JString f \<and> f \<noteq> [])))"
proof -
  from assms [unfolded parse_Inr] obtain opf c r ms e7 sp mi ss where
    s5: "toc_stage ev ((new_epub z opts)\<lparr>opfPath := opf, content := c, root := Some r,
                      manifest := Some ms,
                      metadata := get c [''package'', ''metadata''] (JObject []),
                      tocFile := (case find (\<lambda>m. id_m m = JString ''ncx'') ms of
                                    None \<Rightarrow> JUndefined | Some m \<Rightarrow> href m)\<rparr>) = Inr e7"
    and d: "d = e7\<lparr>spine := Some sp, info := Some mi, sections := Some ss\<rparr>"
    by blast
  define e6 :: "('a, 'b) epub" where "e6 = (new_epub z opts)\<lparr>opfPath := opf, content := c, root := Some r,
                      manifest := Some ms,
                      metadata := get c [''package'', ''metadata''] (JObject []),
                      tocFile := (case find (\<lambda>m. id_m m = JString ''ncx'') ms of
                                    None \<Rightarrow> JUndefined | Some m \<Rightarrow> href m)\<rparr>"
  have t6: "toc_stage ev e6 = Inr e7" using s5 unfolding e6_def .
  have e6: "manifest e6 = Some ms" "structure_e e6 = None"
    "tocFile e6 = (case find (\<lambda>m. id_m m = JString ''ncx'') ms of
                     None \<Rightarrow> JUndefined | Some m \<Rightarrow> href m)"
    unfolding e6_def by (simp_all add: new_epub_def)
  note f = toc_stage_fields [OF t6]
  have m: "manifest d = Some ms" using f d e6 by simp
  have tf: "tocFile d = (case find (\<lambda>m. id_m m = JString ''ncx'') ms of
                     None \<Rightarrow> JUndefined | Some m \<Rightarrow> href m)"
    using f d e6 by simp
  have same: "tocFile d = tocFile e6" "structure_e d = structure_e e7" using f d by simp_all
  have st: "structure_e d \<noteq> None \<longleftrightarrow> truthy (tocFile d)"
    using toc_stage_Inr [OF t6]
  proof
    assume "truthy (tocFile e6)
           \<and> (\<exists>t s. resolveXMLAsJsObject ev e6 (tocFile e6) = Inr t
                  \<and> genStructure (parseLink ev) (manifest e6) t = Inr s
                  \<and> e7 = e6\<lparr>toc := t, structure_e := Some s\<rparr>)"
    then obtain t s where "truthy (tocFile e6)"
      and "e7 = e6\<lparr>toc := t, structure_e := Some s\<rparr>" by blast
    then show ?thesis unfolding same by simp
  next
    assume "\<not> truthy (tocFile e6) \<and> e7 = e6"
    then show ?thesis unfolding same using e6(2) by simp
  qed
  have typed: "(tocFile d \<noteq> JUndefined \<longleftrightarrow> (\<exists>m \<in> set ms. id_m m = JString ''ncx''))
          \<and> (structure_e d \<noteq> None \<longleftrightarrow> (\<exists>f. tocFile d = JString f \<and> f \<noteq> []))"
    if h: "\<forall>m \<in> set ms. \<exists>s. href m = JString s"
  proof (cases "find (\<lambda>m. id_m m = JString ''ncx'') ms")
    case None
    then have "\<not> (\<exists>m \<in> set ms. id_m m = JString ''ncx'')" by (simp add: find_None_iff)
    with None show ?thesis unfolding st tf by simp
  next
    case (Some it)
    then have "it \<in> set ms" and i: "id_m it = JString ''ncx''"
      by (auto simp: find_Some_iff)
    with h obtain s where s: "href it = JString s" by blast
    from \<open>it \<in> set ms\<close> i have "\<exists>m \<in> set ms. id_m m = JString ''ncx''" by blast
    with Some s show ?thesis unfolding st tf by simp
  qed
  have a1: "manifest d \<noteq> None" using m by simp
  have a2: "tocFile d = (case find (\<lambda>m. id_m m = JString ''ncx'') (the (manifest d)) of
                     None \<Rightarrow> JUndefined | Some m \<Rightarrow> href m)"
    using tf m by simp
  have a4: "(\<forall>m \<in> set (the (manifest d)). \<exists>s. href m = JString s) \<longrightarrow>
          (tocFile d \<noteq> JUndefined \<longleftrightarrow> (\<exists>m \<in> set (the (manifest d)). id_m m = JString ''ncx''))
          \<and> (structure_e d \<noteq> None \<longleftrightarrow> (\<exists>f. tocFile d = JString f \<and> f \<noteq> []))"
    using typed m by simp
  show ?thesis
    by (intro conjI) (rule a1 a2 st a4)+
qed

lemma empty_href_fields:
  "parse sample_env (sample_epub ''opf-empty-href'') = Inr (parsed ''opf-empty-href'')"
  "manifest (parsed ''opf-empty-href'')
     = Some [\<lparr>href = JString ''Text/chap1.xhtml'', id_m = JString ''chap1''\<rparr>,
             \<lparr>href = JString [], id_m = JString ''ncx''\<rparr>]"
  "tocFile (parsed ''opf-empty-href'') = JString []"
  "structure_e (parsed ''opf-empty-href'') = None"
  using map_sum_Inr [OF empty_href_parse] unfolding parsed_def by simp_all

lemma no_ncx_fields:
  "parse sample_env (sample_epub ''opf-no-ncx'') = Inr (parsed ''opf-no-ncx'')"
  "manifest (parsed ''opf-no-ncx'')
     = Some [\<lparr>href = JString ''Text/chap1.xhtml'', id_m = JString ''chap1''\<rparr>,
             \<lparr>href = JString ''Text/chap2.xhtml'', id_m = JString ''chap2''\<rparr>]"
  "tocFile (parsed ''opf-no-ncx'') = JUndefined"
  "structure_e (parsed ''opf-no-ncx'') = None"
  "sections (parsed ''opf-no-ncx'') = Some [(''chap1'', ''one''), (''chap2'', ''two'')]"
  using map_sum_Inr [OF no_ncx_parse] unfolding parsed_def by simp_all


text \<open>The sample container, and the same container without the \<^verbatim>\<open>ncx\<close> item.\<close>

theorem outline_iff_ncx_witness:
  "parse sample_env (new_epub (sample_archive ''opf'') defaultOptions) = Inr (parsed ''opf'')
   \<and> manifest (parsed ''opf'') = Some (typed_manifest sample_items)
   \<and> find (\<lambda>m. id_m m = JString ''ncx'') (the (manifest (parsed ''opf'')))
        = Some \<lparr>href = JString ''toc.ncx'', id_m = JString ''ncx''\<rparr>
   \<and> tocFile (parsed ''opf'') = JString ''toc.ncx''
   \<and> structure_e (parsed ''opf'') \<noteq> None
   \<and> parse sample_env (new_epub (sample_archive ''opf-no-ncx'') defaultOptions)
        = Inr (parsed ''opf-no-ncx'')
   \<and> manifest (parsed ''opf-no-ncx'')
        = Some (typed_manifest [(''chap1'', ''Text/chap1.xhtml''), (''chap2'', ''Text/chap2.xhtml'')])
   \<and> find (\<lambda>m. id_m m = JString ''ncx'') (the (manifest (parsed ''opf-no-ncx''))) = None
   \<and> tocFile (parsed ''opf-no-ncx'') = JUndefined
   \<and> structure_e (parsed ''opf-no-ncx'') = None
   \<and> sections (parsed ''opf-no-ncx'') = Some [(''chap1'', ''one''), (''chap2'', ''two'')]"
proof -
  have p1: "parse sample_env (new_epub (sample_archive ''opf'') defaultOptions) = Inr (parsed ''opf'')"
    using sample_parsed by (simp add: sample_epub_def)
  have p2: "parse sample_env (new_epub (sample_archive ''opf-no-ncx'') defaultOptions)
        = Inr (parsed ''opf-no-ncx'')"
    using no_ncx_fields(1) by (simp add: sample_epub_def)
  have m1: "manifest (parsed ''opf'') = Some (typed_manifest sample_items)"
    by (simp add: sample_fields typed_manifest_def sample_items_def)
  have m2: "manifest (parsed ''opf-no-ncx'')
        = Some (typed_manifest [(''chap1'', ''Text/chap1.xhtml''), (''chap2'', ''Text/chap2.xhtml'')])"
    by (simp add: no_ncx_fields typed_manifest_def)
  have h1: "\<forall>m \<in> set (the (manifest (parsed ''opf''))). \<exists>s. href m = JString s"
    by (simp add: sample_fields)
  have h2: "\<forall>m \<in> set (the (manifest (parsed ''opf-no-ncx''))). \<exists>s. href m = JString s"
    by (simp add: no_ncx_fields)
  have f1: "find (\<lambda>m. id_m m = JString ''ncx'') (the (manifest (parsed ''opf'')))
        = Some \<lparr>href = JString ''toc.ncx'', id_m = JString ''ncx''\<rparr>"
    by (simp add: sample_fields)
  have f2: "find (\<lambda>m. id_m m = JString ''ncx'') (the (manifest (parsed ''opf-no-ncx''))) = None"
    by (simp add: no_ncx_fields)
  note t1 = outline_iff_ncx [OF p1] and t2 = outline_iff_ncx [OF p2]
  from t1 [THEN conjunct2, THEN conjunct1] f1
  have a: "tocFile (parsed ''opf'') = JString ''toc.ncx''" by simp
  from t1 [THEN conjunct2, THEN conjunct2, THEN conjunct2, THEN mp, OF h1] a
  have b: "structure_e (parsed ''opf'') \<noteq> None" by simp
  from t2 [THEN conjunct2, THEN conjunct1] f2
  have c: "tocFile (parsed ''opf-no-ncx'') = JUndefined" by simp
  from t2 [THEN conjunct2, THEN conjunct2, THEN conjunct2, THEN mp, OF h2] c
  have e: "structure_e (parsed ''opf-no-ncx'') = None" by simp
  show ?thesis using p1 p2 m1 m2 f1 f2 a b c e no_ncx_fields(5) by simp
qed

text \<open>
  As the claim states it, the outline is defined whenever the item exists, it fails
  for an \<^verbatim>\<open>ncx\<close> item with an empty href: \<^verbatim>\<open>if (this.tocFile)\<close> skips the outline, and
  parsing succeeds with the path set to the empty string and no outline.
\<close>

theorem outline_empty_href_counterexample:
  "parse sample_env (sample_epub ''opf-empty-href'') = Inr (parsed ''opf-empty-href'')
   \<and> manifest (parsed ''opf-empty-href'')
        = Some [\<lparr>href = JString ''Text/chap1.xhtml'', id_m = JString ''chap1''\<rparr>,
                \<lparr>href = JString [], id_m = JString ''ncx''\<rparr>]
   \<and> tocFile (parsed ''opf-empty-href'') = JString []
   \<and> structure_e (parsed ''opf-empty-href'') = None"
  by (simp add: empty_href_fields)



end
